theory Spec2Isabelle
  imports Complex_Main "HOL-Library.AList" "HOL-Library.Char_ord" "HOL-Library.List_Lexorder"
begin

section \<open>Data model\<close>

text \<open>
  The allocation engine of \<^verbatim>\<open>AMCBDG_SQL.py\<close> (\<^verbatim>\<open>process_single_scenario\<close>) and its
  copy in \<^verbatim>\<open>AMCBDG_SQL_Qt6.py\<close>. Quantities and hours are exact rationals here; the
  rounding of the 64-bit floats that the quantity columns hold at run time is translated
  separately, for the ledger, in the section on floating point.
  Dates and the clock are points on one discrete time axis (\<open>nat\<close>); a missing date
  (\<^verbatim>\<open>NaT\<close>) and a missing cell (\<^verbatim>\<open>NaN\<close>) are \<open>None\<close>.
\<close>

type_synonym part = string

text \<open>The dictionaries \<^verbatim>\<open>stock\<close>, \<^verbatim>\<open>used_components\<close> and \<^verbatim>\<open>labor_standards\<close>.\<close>

type_synonym ledger = "part \<rightharpoonup> rat"

text \<open>\<^verbatim>\<open>d.get(k, 0)\<close>\<close>

definition dget :: "('k \<rightharpoonup> rat) \<Rightarrow> 'k \<Rightarrow> rat" where
  "dget d k = (case d k of None \<Rightarrow> 0 | Some v \<Rightarrow> v)"

text \<open>
  A cell of the column \<^verbatim>\<open>Component Qty Required\<close>: missing, a number, or a value
  that \<^verbatim>\<open>int()\<close> rejects (a non-numeric string, an infinity).
\<close>

datatype qty_cell = QNull | QNum rat | QBad

datatype py_error = ValueError | KeyError string | MissingColumns "string list"

text \<open>\<^verbatim>\<open>int(x)\<close> on a number truncates towards zero.\<close>

definition py_int :: "rat \<Rightarrow> int" where
  "py_int q = (if 0 \<le> q then \<lfloor>q\<rfloor> else \<lceil>q\<rceil>)"

text \<open>\<^verbatim>\<open>int(comp["Component Qty Required"]) if pd.notna(...) else 0\<close>\<close>

definition required_of :: "qty_cell \<Rightarrow> py_error + int" where
  "required_of c = (case c of QNull \<Rightarrow> Inr 0 | QNum q \<Rightarrow> Inr (py_int q) | QBad \<Rightarrow> Inl ValueError)"

text \<open>A row of \<^verbatim>\<open>planned_demand\<close> (the bill of materials, keyed by normalised SO number).\<close>

record bom_row =
  bom_so :: string
  comp_part :: part
  comp_qty :: qty_cell

text \<open>A row of \<^verbatim>\<open>df_pos\<close> (purchase orders, in the order the query returned them).\<close>

record po_row =
  po_number :: string
  po_part :: part
  qty_due :: rat
  promised :: "nat option"

text \<open>
  A row of \<^verbatim>\<open>df_main\<close> after the pre-processing of its columns: \<^verbatim>\<open>Part\<close> went through
  \<^verbatim>\<open>astype(str)\<close> (a missing part reads \<^verbatim>\<open>nan\<close>), \<^verbatim>\<open>Planner\<close> through
  \<^verbatim>\<open>fillna("UNKNOWN")\<close>, \<^verbatim>\<open>Demand\<close> through \<^verbatim>\<open>to_numeric(...).fillna(0)\<close>, and
  \<^verbatim>\<open>Start Date\<close> through \<^verbatim>\<open>to_datetime(..., errors='coerce')\<close>.
\<close>

record demand_row =
  so_number :: "string option"
  part_no :: part
  planner :: string
  start_date :: "nat option"
  demand :: rat

text \<open>
  The entries of \<^verbatim>\<open>shortage_details\<close>. The source formats each as a string; the model keeps
  the values that the string is built from.
  \<^item> \<open>ShortPO p s po\<close>: \<^verbatim>\<open>"{comp_part} short {shortage} - PO {po_id} due {po_date}"\<close>
  \<^item> \<open>ShortNoPO p need have s\<close>: \<^verbatim>\<open>"{part} (need {required}, have {true_available}, short {shortage})"\<close>
  \<^item> \<open>ProcError\<close>: \<^verbatim>\<open>"Component processing error: {e}"\<close>
  \<^item> \<open>LookupFailed p\<close>: \<^verbatim>\<open>"{part} (stock lookup failed)"\<close>
\<close>

datatype shortage =
    ShortPO part rat po_row
  | ShortNoPO part rat rat rat
  | ProcError py_error
  | LookupFailed part

datatype status = Release | Hold | Skipped

text \<open>
  The column \<^verbatim>\<open>Components\<close> of a result: the shortage details when there are any,
  otherwise the dictionary \<^verbatim>\<open>components_needed\<close> when it is not empty, otherwise
  \<^verbatim>\<open>"-"\<close>; a skipped order carries the fixed text
  \<^verbatim>\<open>"Missing part number or zero demand"\<close>. The column \<^verbatim>\<open>Shortages\<close> lists the part
  named by each shortage detail (read back from the formatted strings); the model keeps the
  details themselves in \<open>r_shortages\<close>.
\<close>

datatype components_info =
    CDetails "shortage list"
  | CNeeded "(part \<times> int) list"
  | CNone
  | CMissing

record result =
  r_so :: string
  r_part :: part
  r_planner :: string
  r_start_date :: "nat option"
  r_pb :: bool
  r_demand :: rat
  r_hours :: rat
  r_status :: status
  r_shortages :: "shortage list"
  r_components :: components_info

text \<open>What the allocation loop reads but never writes.\<close>

record env =
  stock :: ledger
  labor_standards :: ledger
  planned_demand :: "bom_row list"
  df_pos :: "po_row list"
  now :: nat

section \<open>String helpers\<close>

text \<open>\<^verbatim>\<open>str.strip()\<close>: removes ASCII white space at both ends.\<close>

definition is_space :: "char \<Rightarrow> bool" where
  "is_space c = (let n = (of_char c :: nat) in (9 \<le> n \<and> n \<le> 13) \<or> (28 \<le> n \<and> n \<le> 32))"

definition strip :: "string \<Rightarrow> string" where
  "strip s = rev (dropWhile is_space (rev (dropWhile is_space s)))"

definition is_digit :: "char \<Rightarrow> bool" where
  "is_digit c = (let n = (of_char c :: nat) in 48 \<le> n \<and> n \<le> 57)"

text \<open>\<^verbatim>\<open>str.isdigit()\<close>: at least one character, all of them digits.\<close>

definition isdigit :: "string \<Rightarrow> bool" where
  "isdigit s = (s \<noteq> [] \<and> list_all is_digit s)"

text \<open>\<^verbatim>\<open>s.replace('.0', '')\<close>: every occurrence, left to right, without overlap.\<close>

fun replace_dot0 :: "string \<Rightarrow> string" where
  "replace_dot0 (a # b # cs) =
     (if a = CHR ''.'' \<and> b = CHR ''0'' then replace_dot0 cs else a # replace_dot0 (b # cs))"
| "replace_dot0 cs = cs"

definition endswith_dot0 :: "string \<Rightarrow> bool" where
  "endswith_dot0 s = (2 \<le> length s \<and> drop (length s - 2) s = ''.0'')"

text \<open>\<^verbatim>\<open>normalize_so_number\<close>\<close>

definition normalize_so_number :: "string option \<Rightarrow> string" where
  "normalize_so_number so_val =
     (case so_val of
        None \<Rightarrow> ''''
      | Some v \<Rightarrow>
          (let so_str = strip v in
           if endswith_dot0 so_str \<and> isdigit (replace_dot0 so_str) then replace_dot0 so_str
           else so_str))"

text \<open>\<^verbatim>\<open>str(n)\<close> for a natural number.\<close>

fun show_nat :: "nat \<Rightarrow> string" where
  "show_nat n =
     (if n < 10 then [char_of (48 + n)] else show_nat (n div 10) @ [char_of (48 + n mod 10)])"

section \<open>The stock ledger\<close>

text \<open>
  The source computes \<^verbatim>\<open>true_available = stock.get(p, 0) - used_components.get(p, 0)\<close>:
  the quantity of part \<open>p\<close> that is still free.
\<close>

definition true_available :: "env \<Rightarrow> ledger \<Rightarrow> part \<Rightarrow> rat" where
  "true_available e used p = dget (stock e) p - dget used p"

section \<open>Shortage resolution\<close>

text \<open>
  \<^verbatim>\<open>future_pos = df_pos[(df_pos["Part Number"].astype(str) == comp_part) &
  (pd.to_datetime(df_pos["Promised Due Date"], errors="coerce") >= datetime.now())]\<close>
\<close>

definition future_pos :: "env \<Rightarrow> part \<Rightarrow> po_row list" where
  "future_pos e p =
     filter (\<lambda>po. po_part po = p \<and> (case promised po of None \<Rightarrow> False | Some d \<Rightarrow> now e \<le> d))
       (df_pos e)"

text \<open>The loop over \<^verbatim>\<open>future_pos\<close> that stops at the first row with \<^verbatim>\<open>po_qty >= shortage\<close>.\<close>

definition po_match :: "env \<Rightarrow> part \<Rightarrow> rat \<Rightarrow> po_row option" where
  "po_match e p shortage = find (\<lambda>po. shortage \<le> qty_due po) (future_pos e p)"

section \<open>Feasibility pass and commit\<close>

text \<open>The variables that the loop over the rows of \<^verbatim>\<open>bom\<close> updates.\<close>

record check_acc =
  all_components_available :: bool
  component_requirements :: "(part \<times> int \<times> rat) list"
  components_needed :: "(part \<times> int) list"
  shortage_details :: "shortage list"

definition init_acc :: check_acc where
  "init_acc = \<lparr>all_components_available = True, component_requirements = [],
                components_needed = [], shortage_details = []\<rparr>"

text \<open>
  One iteration of \<^verbatim>\<open>for _, comp in bom.iterrows()\<close>, with its \<^verbatim>\<open>try\<close>/\<^verbatim>\<open>except\<close>.
  The only statement of the body that can raise is the conversion of the quantity, which
  comes before anything is appended.
\<close>

definition check_component :: "env \<Rightarrow> ledger \<Rightarrow> check_acc \<Rightarrow> bom_row \<Rightarrow> check_acc" where
  "check_component e used acc line =
     (case required_of (comp_qty line) of
        Inl err \<Rightarrow>
          acc\<lparr>all_components_available := False,
              shortage_details := shortage_details acc @ [ProcError err]\<rparr>
      | Inr required_qty \<Rightarrow>
          (let cp = comp_part line;
               total_used = dget used cp;
               true_avail = dget (stock e) cp - total_used;
               available = max 0 true_avail;
               available_after_usage = true_avail - of_int required_qty;
               will_be_sufficient = (of_int required_qty \<le> true_avail);
               acc1 = acc\<lparr>component_requirements :=
                            component_requirements acc @ [(cp, required_qty, available)],
                          components_needed :=
                            AList.update cp required_qty (components_needed acc)\<rparr>
           in if \<not> will_be_sufficient then
                (let shortage = \<bar>available_after_usage\<bar> in
                 acc1\<lparr>all_components_available := False,
                       shortage_details := shortage_details acc1 @
                         [case po_match e cp shortage of
                            Some po \<Rightarrow> ShortPO cp shortage po
                          | None \<Rightarrow> ShortNoPO cp (of_int required_qty) true_avail shortage]\<rparr>)
              else acc1))"

text \<open>
  The commit loop: \<^verbatim>\<open>used_components[comp_part] = used_components.get(comp_part, 0) +
  required_qty\<close> for every entry of \<^verbatim>\<open>component_requirements\<close>.
\<close>

fun allocate :: "(part \<times> int \<times> rat) list \<Rightarrow> ledger \<Rightarrow> ledger" where
  "allocate [] used = used"
| "allocate ((p, required_qty, available) # reqs) used =
     allocate reqs (used(p \<mapsto> dget used p + of_int required_qty))"


section \<open>One order\<close>

text \<open>
  \<^verbatim>\<open>so = str(row["SO Number"]).strip() if pd.notna(row["SO Number"]) else f"ORDER_{processed}"\<close>
  followed by \<^verbatim>\<open>so = normalize_so_number(so)\<close>.
\<close>

definition order_so :: "nat \<Rightarrow> demand_row \<Rightarrow> string" where
  "order_so processed row =
     normalize_so_number
       (Some (case so_number row of Some v \<Rightarrow> strip v | None \<Rightarrow> ''ORDER_'' @ show_nat processed))"

text \<open>\<^verbatim>\<open>demand_qty = row["Demand"] if pd.notna(row["Demand"]) and row["Demand"] > 0 else 0\<close>\<close>

definition demand_qty_of :: "demand_row \<Rightarrow> rat" where
  "demand_qty_of row = (if 0 < demand row then demand row else 0)"

text \<open>\<^verbatim>\<open>if part is None or part == "nan" or demand_qty <= 0\<close> (\<^verbatim>\<open>part\<close> is a string here).\<close>

definition is_skipped :: "demand_row \<Rightarrow> bool" where
  "is_skipped row = (part_no row = ''nan'' \<or> demand_qty_of row \<le> 0)"

text \<open>\<^verbatim>\<open>bom = planned_demand[planned_demand["SO Number"] == so]\<close>\<close>

definition bom_of :: "env \<Rightarrow> string \<Rightarrow> bom_row list" where
  "bom_of e so = filter (\<lambda>r. bom_so r = so) (planned_demand e)"

text \<open>\<^verbatim>\<open>"PB" if f"NS{part}99" in planned_demand["Component Part Number"].values else "-"\<close>\<close>

definition is_pb :: "env \<Rightarrow> part \<Rightarrow> bool" where
  "is_pb e p = (''NS'' @ p @ ''99'' \<in> set (map comp_part (planned_demand e)))"

text \<open>\<^verbatim>\<open>round(x, 4)\<close>: to the nearest multiple of \<open>1/10000\<close>, a tie going to the even one.\<close>

definition round4 :: "rat \<Rightarrow> rat" where
  "round4 x =
     (let y = x * 10000; f = \<lfloor>y\<rfloor>; d = y - of_int f
      in of_int (if d < 1 / 2 then f else if 1 / 2 < d then f + 1
                 else if even f then f else f + 1) / 10000)"

text \<open>The dictionary appended to \<^verbatim>\<open>results\<close> for an order that was not skipped.\<close>

definition mk_result ::
  "string \<Rightarrow> demand_row \<Rightarrow> bool \<Rightarrow> rat \<Rightarrow> rat \<Rightarrow> bool \<Rightarrow> shortage list \<Rightarrow> (part \<times> int) list \<Rightarrow> result"
where
  "mk_result so row pb demand_qty labor_hours releasable details needed =
     \<lparr>r_so = so, r_part = part_no row, r_planner = planner row,
      r_start_date = start_date row, r_pb = pb, r_demand = demand_qty,
      r_hours = round4 labor_hours,
      r_status = (if releasable then Release else Hold),
      r_shortages = details,
      r_components = (if details \<noteq> [] then CDetails details
                      else if needed \<noteq> [] then CNeeded needed else CNone)\<rparr>"

text \<open>The dictionary appended for a skipped order (\<^verbatim>\<open>"Part": part or "MISSING"\<close>).\<close>

definition skipped_result :: "string \<Rightarrow> demand_row \<Rightarrow> rat \<Rightarrow> result" where
  "skipped_result so row demand_qty =
     \<lparr>r_so = so, r_part = (if part_no row = [] then ''MISSING'' else part_no row),
      r_planner = planner row, r_start_date = start_date row, r_pb = False,
      r_demand = demand_qty, r_hours = 0, r_status = Skipped, r_shortages = [],
      r_components = CMissing\<rparr>"

text \<open>
  The body of \<^verbatim>\<open>for _, row in filtered_df_main.iterrows()\<close>: the result appended for the
  order and the dictionary \<^verbatim>\<open>used_components\<close> after it. In the branch without a bill of
  materials the \<^verbatim>\<open>try\<close> body consists of dictionary lookups and arithmetic, none of which
  raises, so its handler (\<open>LookupFailed\<close>) is never entered.
\<close>

definition process_order :: "env \<Rightarrow> nat \<Rightarrow> demand_row \<Rightarrow> ledger \<Rightarrow> result \<times> ledger" where
  "process_order e processed row used =
     (let so = order_so processed row;
          p = part_no row;
          demand_qty = demand_qty_of row
      in if p = ''nan'' \<or> demand_qty \<le> 0 then (skipped_result so row demand_qty, used)
         else
           (let pb = is_pb e p;
                bom = bom_of e so;
                base_hours = dget (labor_standards e) p;
                labor_hours = base_hours * demand_qty
            in if 0 < length bom then
                 (let acc = foldl (check_component e used) init_acc bom
                  in if all_components_available acc then
                       (mk_result so row pb demand_qty labor_hours True
                          (shortage_details acc) (components_needed acc),
                        allocate (component_requirements acc) used)
                     else
                       (mk_result so row pb demand_qty labor_hours False
                          (shortage_details acc) (components_needed acc),
                        used))
               else
                 (let total_used = dget used p;
                      true_avail = dget (stock e) p - total_used;
                      available_after_usage = true_avail - demand_qty
                  in if demand_qty \<le> true_avail then
                       (mk_result so row pb demand_qty labor_hours True [] [],
                        used(p \<mapsto> dget used p + demand_qty))
                     else
                       (let shortage = \<bar>available_after_usage\<bar> in
                        (mk_result so row pb demand_qty labor_hours False
                           [ShortNoPO p demand_qty true_avail shortage] [],
                         used)))))"

section \<open>The allocation loop\<close>

text \<open>
  The whole loop: \<^verbatim>\<open>processed\<close> counts the rows seen so far, \<^verbatim>\<open>results\<close> collects one
  dictionary per row, and \<^verbatim>\<open>used_components\<close> is threaded from one order to the next.
\<close>

fun process_orders :: "env \<Rightarrow> nat \<Rightarrow> demand_row list \<Rightarrow> ledger \<Rightarrow> result list \<times> ledger" where
  "process_orders e processed [] used = ([], used)"
| "process_orders e processed (row # rows) used =
     (let (r, used1) = process_order e (Suc processed) row used;
          (rs, used2) = process_orders e (Suc processed) rows used1
      in (r # rs, used2))"


section \<open>Building the run's inputs\<close>

text \<open>
  The data frames as the loaders return them. \<open>main_columns\<close> are the column names of the
  demand table; the other tables are rows of the columns the engine reads. The source
  reads \<^verbatim>\<open>datetime.now()\<close> at every shortage; the model takes one reading, \<open>clock\<close>,
  for the whole run.
\<close>

record struct_row =
  s_so :: string
  s_comp :: "string option"
  s_qty :: qty_cell

record tables =
  main_columns :: "string list"
  df_main :: "demand_row list"
  df_struct :: "struct_row list"
  df_component_demand :: "(part \<times> rat) list"
  df_ipis :: "(part \<times> rat) list"
  df_hours :: "(part \<times> rat) list"
  pos_table :: "po_row list"
  clock :: nat

text \<open>\<^verbatim>\<open>df.groupby(key)[value].sum().to_dict()\<close>\<close>

definition group_sum :: "(part \<times> rat) list \<Rightarrow> ledger" where
  "group_sum rows = foldl (\<lambda>m (p, q). m(p \<mapsto> dget m p + q)) Map.empty rows"

text \<open>\<^verbatim>\<open>build_stock_dictionary\<close>\<close>

definition build_stock_dictionary :: "(part \<times> rat) list \<Rightarrow> ledger" where
  "build_stock_dictionary ipis = (if ipis \<noteq> [] then Map.empty ++ group_sum ipis else Map.empty)"

text \<open>
  \<^verbatim>\<open>committed_components\<close>, with which \<^verbatim>\<open>used_components\<close> starts
  (\<^verbatim>\<open>used_components = committed_components.copy()\<close>).
\<close>

definition committed_components :: "tables \<Rightarrow> ledger" where
  "committed_components t =
     (if df_component_demand t \<noteq> [] then group_sum (df_component_demand t) else Map.empty)"

text \<open>
  \<^verbatim>\<open>planned_demand\<close>: the rows of \<^verbatim>\<open>df_struct\<close> with a component part, their SO number
  stripped and normalised.
\<close>

definition planned_demand_of :: "struct_row list \<Rightarrow> bom_row list" where
  "planned_demand_of rows =
     concat (map (\<lambda>r. case s_comp r of
                         None \<Rightarrow> []
                       | Some c \<Rightarrow> [\<lparr>bom_so = normalize_so_number (Some (strip (s_so r))),
                                      comp_part = c, comp_qty = s_qty r\<rparr>]) rows)"

definition required_columns :: "string list" where
  "required_columns = [''SO No'', ''Part No'', ''Planner'', ''Start Date'', ''Rev Qty Due'']"

definition kits_planners :: "string list" where
  "kits_planners = [''3001'', ''3801'', ''5001'']"

definition instruments_planners :: "string list" where
  "instruments_planners = [''3802'', ''3803'', ''3804'', ''3805'']"

definition virtuoso_planners :: "string list" where
  "virtuoso_planners = [''3806'']"

definition kit_samples_planners :: "string list" where
  "kit_samples_planners = [''KIT SAMPLES'']"

text \<open>The filter mask over the planner codes of the selected categories.\<close>

definition filter_mask :: "bool \<Rightarrow> bool \<Rightarrow> bool \<Rightarrow> bool \<Rightarrow> demand_row \<Rightarrow> bool" where
  "filter_mask include_kits include_instruments include_virtuoso include_kit_samples row =
     ((include_kits \<and> planner row \<in> set kits_planners) \<or>
      (include_instruments \<and> planner row \<in> set instruments_planners) \<or>
      (include_virtuoso \<and> planner row \<in> set virtuoso_planners) \<or>
      (include_kit_samples \<and> planner row \<in> set kit_samples_planners))"

section \<open>Sorting strategies\<close>

datatype column = StartDate | SONumber | Demand | HoursCalc | Part | Planner

record strategy =
  s_name :: string
  s_columns :: "column list"
  s_ascending :: "bool list"

text \<open>\<^verbatim>\<open>get_sorting_strategies\<close>\<close>

definition get_sorting_strategies :: "strategy list" where
  "get_sorting_strategies =
     [\<lparr>s_name = ''Start Date (Early First)'', s_columns = [StartDate, SONumber], s_ascending = [True, True]\<rparr>,
      \<lparr>s_name = ''Start Date (Late First)'', s_columns = [StartDate, SONumber], s_ascending = [False, True]\<rparr>,
      \<lparr>s_name = ''Demand (Small First)'', s_columns = [Demand, StartDate], s_ascending = [True, True]\<rparr>,
      \<lparr>s_name = ''Demand (Large First)'', s_columns = [Demand, StartDate], s_ascending = [False, True]\<rparr>,
      \<lparr>s_name = ''Hours (Quick First)'', s_columns = [HoursCalc, StartDate], s_ascending = [True, True]\<rparr>,
      \<lparr>s_name = ''Hours (Long First)'', s_columns = [HoursCalc, StartDate], s_ascending = [False, True]\<rparr>,
      \<lparr>s_name = ''Part Number (A-Z)'', s_columns = [Part, StartDate], s_ascending = [True, True]\<rparr>,
      \<lparr>s_name = ''Part Number (Z-A)'', s_columns = [Part, StartDate], s_ascending = [False, True]\<rparr>,
      \<lparr>s_name = ''Planner (A-Z)'', s_columns = [Planner, StartDate], s_ascending = [True, True]\<rparr>,
      \<lparr>s_name = ''Planner (Z-A)'', s_columns = [Planner, StartDate], s_ascending = [False, True]\<rparr>]"

text \<open>The outcome of comparing two rows on a sort key.\<close>

datatype ord3 = Before | Tie | After

definition cmp_dir :: "bool \<Rightarrow> 'a::linorder \<Rightarrow> 'a \<Rightarrow> ord3" where
  "cmp_dir asc a b =
     (if a = b then Tie else if (if asc then a < b else b < a) then Before else After)"

text \<open>
  A column that may hold missing values: with \<^verbatim>\<open>na_position='last'\<close> (which is also the
  default of \<^verbatim>\<open>sort_values\<close>) they follow every value, whatever the direction.
\<close>

definition cmp_na_last :: "bool \<Rightarrow> 'a::linorder option \<Rightarrow> 'a option \<Rightarrow> ord3" where
  "cmp_na_last asc a b =
     (case a of
        None \<Rightarrow> (case b of None \<Rightarrow> Tie | Some y \<Rightarrow> After)
      | Some x \<Rightarrow> (case b of None \<Rightarrow> Before | Some y \<Rightarrow> cmp_dir asc x y))"

text \<open>
  \<^verbatim>\<open>Hours_Calc = labor_standards.get(str(row["Part"]), 0) * row["Demand"]\<close>
\<close>

definition hours_calc :: "ledger \<Rightarrow> demand_row \<Rightarrow> rat" where
  "hours_calc ls row = dget ls (part_no row) * demand row"

fun key_cmp :: "ledger \<Rightarrow> column \<Rightarrow> bool \<Rightarrow> demand_row \<Rightarrow> demand_row \<Rightarrow> ord3" where
  "key_cmp ls StartDate asc a b = cmp_na_last asc (start_date a) (start_date b)"
| "key_cmp ls SONumber asc a b = cmp_na_last asc (so_number a) (so_number b)"
| "key_cmp ls Demand asc a b = cmp_dir asc (demand a) (demand b)"
| "key_cmp ls HoursCalc asc a b = cmp_dir asc (hours_calc ls a) (hours_calc ls b)"
| "key_cmp ls Part asc a b = cmp_dir asc (part_no a) (part_no b)"
| "key_cmp ls Planner asc a b = cmp_dir asc (planner a) (planner b)"

text \<open>Several sort columns compare lexicographically.\<close>

fun lex_cmp :: "ledger \<Rightarrow> (column \<times> bool) list \<Rightarrow> demand_row \<Rightarrow> demand_row \<Rightarrow> ord3" where
  "lex_cmp ls [] a b = Tie"
| "lex_cmp ls ((c, asc) # ks) a b =
     (case key_cmp ls c asc a b of Tie \<Rightarrow> lex_cmp ls ks a b | Before \<Rightarrow> Before | After \<Rightarrow> After)"

text \<open>A stable sort: rows that compare equal keep the order they came in.\<close>

fun insort_by :: "('a \<Rightarrow> 'a \<Rightarrow> bool) \<Rightarrow> 'a \<Rightarrow> 'a list \<Rightarrow> 'a list" where
  "insort_by le x [] = [x]"
| "insort_by le x (y # ys) = (if le x y then x # y # ys else y # insort_by le x ys)"

definition sort_by :: "('a \<Rightarrow> 'a \<Rightarrow> bool) \<Rightarrow> 'a list \<Rightarrow> 'a list" where
  "sort_by le xs = foldr (insort_by le) xs []"

text \<open>\<^verbatim>\<open>df.sort_values(columns, ascending=ascending, na_position='last')\<close>\<close>

definition row_le :: "ledger \<Rightarrow> column list \<Rightarrow> bool list \<Rightarrow> demand_row \<Rightarrow> demand_row \<Rightarrow> bool" where
  "row_le ls cols asc a b = (lex_cmp ls (zip cols asc) a b \<noteq> After)"

definition sort_values :: "ledger \<Rightarrow> column list \<Rightarrow> bool list \<Rightarrow> demand_row list \<Rightarrow> demand_row list" where
  "sort_values ls cols asc rows = sort_by (row_le ls cols asc) rows"

text \<open>
  The sorting step. With a strategy the source loops over the strategy's columns and sorts
  the frame once per column, each time by the whole column list; both branches of the
  loop body are the same call, since \<^verbatim>\<open>na_position\<close> defaults to \<^verbatim>\<open>'last'\<close>. Without
  a strategy the frame is sorted by start date, then SO number.
\<close>

definition apply_sorting :: "ledger \<Rightarrow> strategy option \<Rightarrow> demand_row list \<Rightarrow> demand_row list" where
  "apply_sorting ls strat rows =
     (case strat of
        Some s \<Rightarrow>
          foldl (\<lambda>df col. if col = StartDate
                           then sort_values ls (s_columns s) (s_ascending s) df
                           else sort_values ls (s_columns s) (s_ascending s) df)
            rows (s_columns s)
      | None \<Rightarrow> sort_values ls [StartDate, SONumber] [True, True] rows)"


section \<open>Run metrics\<close>

text \<open>Count, hours and quantity of a selection of results.\<close>

definition count_rows :: "(result \<Rightarrow> bool) \<Rightarrow> result list \<Rightarrow> int" where
  "count_rows P rs = int (length (filter P rs))"

definition sum_hours :: "(result \<Rightarrow> bool) \<Rightarrow> result list \<Rightarrow> rat" where
  "sum_hours P rs = sum_list (map r_hours (filter P rs))"

definition sum_demand :: "(result \<Rightarrow> bool) \<Rightarrow> result list \<Rightarrow> rat" where
  "sum_demand P rs = sum_list (map r_demand (filter P rs))"

text \<open>The six figures the source computes for each planner category.\<close>

record cat_metrics =
  total_count :: int
  total_cat_hours :: rat
  total_cat_qty :: rat
  releasable_cat_count :: int
  releasable_cat_hours :: rat
  releasable_cat_qty :: rat

definition category_metrics :: "string list \<Rightarrow> result list \<Rightarrow> cat_metrics" where
  "category_metrics planners rs =
     (let in_cat = (\<lambda>r. r_planner r \<in> set planners);
          releasable_results = filter (\<lambda>r. r_status r = Release) rs
      in \<lparr>total_count = count_rows in_cat rs,
          total_cat_hours = sum_hours in_cat rs,
          total_cat_qty = sum_demand in_cat rs,
          releasable_cat_count = count_rows in_cat releasable_results,
          releasable_cat_hours = sum_hours in_cat releasable_results,
          releasable_cat_qty = sum_demand in_cat releasable_results\<rparr>)"

text \<open>The totals of several categories (\<^verbatim>\<open>total_kits_count = total_bvi_kits_count + ...\<close>).\<close>

definition add_cat :: "cat_metrics \<Rightarrow> cat_metrics \<Rightarrow> cat_metrics" where
  "add_cat a b =
     \<lparr>total_count = total_count a + total_count b,
      total_cat_hours = total_cat_hours a + total_cat_hours b,
      total_cat_qty = total_cat_qty a + total_cat_qty b,
      releasable_cat_count = releasable_cat_count a + releasable_cat_count b,
      releasable_cat_hours = releasable_cat_hours a + releasable_cat_hours b,
      releasable_cat_qty = releasable_cat_qty a + releasable_cat_qty b\<rparr>"

record metrics =
  total_orders :: int
  releasable_count :: int
  held_count :: int
  pb_count :: int
  skipped_count :: int
  total_hours :: rat
  releasable_hours :: rat
  held_hours :: rat
  total_qty :: rat
  releasable_qty :: rat
  held_qty :: rat
  kits :: cat_metrics
  bvi_kits :: cat_metrics
  malosa_kits :: cat_metrics
  instruments :: cat_metrics
  manufacturing :: cat_metrics
  assembly :: cat_metrics
  packaging :: cat_metrics
  malosa_instruments :: cat_metrics
  virtuoso :: cat_metrics
  committed_parts_count :: int
  total_committed_qty :: rat
  kit_samples :: cat_metrics

text \<open>
  The summary computed after the loop from \<^verbatim>\<open>df_results = pd.DataFrame(results)\<close>. A frame
  built from an empty list has no columns, so the first \<^verbatim>\<open>df_results['Status']\<close> raises
  \<^verbatim>\<open>KeyError\<close> when no order was processed. \<open>n_committed\<close> and \<open>q_committed\<close> are
  \<^verbatim>\<open>committed_parts_count\<close> and \<^verbatim>\<open>total_committed_qty\<close>, computed before the loop.
\<close>

definition compute_metrics :: "int \<Rightarrow> rat \<Rightarrow> result list \<Rightarrow> py_error + metrics" where
  "compute_metrics n_committed q_committed df_results =
     (if df_results = [] then Inl (KeyError ''Status'')
      else
        (let n_total = int (length df_results);
             n_releasable = count_rows (\<lambda>r. r_status r = Release) df_results;
             bvi = category_metrics [''3001'', ''3801''] df_results;
             malosa = category_metrics [''5001''] df_results;
             manuf = category_metrics [''3802''] df_results;
             assem = category_metrics [''3803''] df_results;
             packg = category_metrics [''3804''] df_results;
             malosa_i = category_metrics [''3805''] df_results
         in Inr
          \<lparr>total_orders = n_total,
           releasable_count = n_releasable,
           held_count = n_total - n_releasable,
           pb_count = count_rows r_pb df_results,
           skipped_count = count_rows (\<lambda>r. r_status r = Skipped) df_results,
           total_hours = sum_hours (\<lambda>r. True) df_results,
           releasable_hours = sum_hours (\<lambda>r. r_status r = Release) df_results,
           held_hours = sum_hours (\<lambda>r. r_status r = Hold) df_results,
           total_qty = sum_demand (\<lambda>r. True) df_results,
           releasable_qty = sum_demand (\<lambda>r. r_status r = Release) df_results,
           held_qty = sum_demand (\<lambda>r. r_status r = Hold) df_results,
           kits = add_cat bvi malosa,
           bvi_kits = bvi,
           malosa_kits = malosa,
           instruments = add_cat (add_cat (add_cat manuf assem) packg) malosa_i,
           manufacturing = manuf,
           assembly = assem,
           packaging = packg,
           malosa_instruments = malosa_i,
           virtuoso = category_metrics [''3806''] df_results,
           committed_parts_count = n_committed,
           total_committed_qty = q_committed,
           kit_samples = category_metrics [''KIT SAMPLES''] df_results\<rparr>))"

section \<open>One scenario\<close>

record scenario =
  sc_name :: string
  sc_sorting_strategy :: string
  results_df :: "result list"
  sc_metrics :: metrics

text \<open>The read-only inputs of the loop, built from the tables.\<close>

definition scenario_env :: "tables \<Rightarrow> env" where
  "scenario_env t =
     \<lparr>stock = build_stock_dictionary (df_ipis t),
      labor_standards = group_sum (df_hours t),
      planned_demand = planned_demand_of (df_struct t),
      df_pos = pos_table t,
      now = clock t\<rparr>"

text \<open>The rows the loop iterates over: filtered by category, then sorted.\<close>

definition scenario_orders ::
  "tables \<Rightarrow> strategy option \<Rightarrow> bool \<Rightarrow> bool \<Rightarrow> bool \<Rightarrow> bool \<Rightarrow> demand_row list" where
  "scenario_orders t strat include_kits include_instruments include_virtuoso include_kit_samples =
     apply_sorting (group_sum (df_hours t)) strat
       (filter (filter_mask include_kits include_instruments include_virtuoso include_kit_samples)
          (df_main t))"

text \<open>
  \<^verbatim>\<open>process_single_scenario\<close> of \<^verbatim>\<open>AMCBDG_SQL.py\<close>, from the validation of the demand
  table's columns to the returned dictionary. The status callback and the debug output
  only print, and are left out.
\<close>

definition process_single_scenario ::
  "tables \<Rightarrow> string \<Rightarrow> strategy option \<Rightarrow> bool \<Rightarrow> bool \<Rightarrow> bool \<Rightarrow> bool \<Rightarrow> py_error + scenario"
where
  "process_single_scenario t scenario_name sorting_strategy
       include_kits include_instruments include_virtuoso include_kit_samples =
     (let missing_columns = filter (\<lambda>col. col \<notin> set (main_columns t)) required_columns
      in if missing_columns \<noteq> [] then Inl (MissingColumns missing_columns)
         else
           (let committed = committed_components t;
                committed_parts_count = int (length (remdups (map fst (df_component_demand t))));
                total_committed_qty = sum_list (map snd (df_component_demand t));
                used_components = committed;
                filtered_df_main =
                  scenario_orders t sorting_strategy
                    include_kits include_instruments include_virtuoso include_kit_samples;
                (results, used_final) =
                  process_orders (scenario_env t) 0 filtered_df_main used_components
            in case compute_metrics committed_parts_count total_committed_qty results of
                 Inl err \<Rightarrow> Inl err
               | Inr m \<Rightarrow>
                   Inr \<lparr>sc_name = scenario_name,
                        sc_sorting_strategy =
                          (case sorting_strategy of Some s \<Rightarrow> s_name s
                           | None \<Rightarrow> ''Default (Start Date)''),
                        results_df = results,
                        sc_metrics = m\<rparr>))"

section \<open>Strategy search\<close>

text \<open>
  \<^verbatim>\<open>max(xs, key=...)\<close>: the first element whose key no other element exceeds;
  \<^verbatim>\<open>ValueError\<close> on an empty list.
\<close>

fun max_from :: "('a \<Rightarrow> 'k::linorder) \<Rightarrow> 'a \<Rightarrow> 'a list \<Rightarrow> 'a" where
  "max_from key best [] = best"
| "max_from key best (x # xs) = max_from key (if key best < key x then x else best) xs"

definition py_max :: "('a \<Rightarrow> 'k::linorder) \<Rightarrow> 'a list \<Rightarrow> py_error + 'a" where
  "py_max key xs = (case xs of [] \<Rightarrow> Inl ValueError | x # rest \<Rightarrow> Inr (max_from key x rest))"

text \<open>
  \<^verbatim>\<open>f"Database_{strategy['name'].replace(' ', '_').replace('(', '').replace(')', '')}"\<close>
\<close>

definition scenario_name_of :: "strategy \<Rightarrow> string" where
  "scenario_name_of s =
     ''Database_'' @
       filter (\<lambda>c. c \<noteq> CHR ''('' \<and> c \<noteq> CHR '')'')
         (map (\<lambda>c. if c = CHR '' '' then CHR ''_'' else c) (s_name s))"

text \<open>
  The loop over the strategies. Every call of \<^verbatim>\<open>process_single_scenario\<close> loads the
  tables again and starts from a fresh copy of the committed quantities; the model gives
  every run the same tables. An exception in one run ends the whole search.
\<close>

fun run_strategies ::
  "tables \<Rightarrow> bool \<Rightarrow> bool \<Rightarrow> bool \<Rightarrow> bool \<Rightarrow> strategy list \<Rightarrow> py_error + scenario list" where
  "run_strategies t ik ii iv iks [] = Inr []"
| "run_strategies t ik ii iv iks (s # ss) =
     (case process_single_scenario t (scenario_name_of s) (Some s) ik ii iv iks of
        Inl err \<Rightarrow> Inl err
      | Inr sc \<Rightarrow>
          (case run_strategies t ik ii iv iks ss of
             Inl err \<Rightarrow> Inl err
           | Inr scs \<Rightarrow> Inr (sc # scs)))"

record search_result =
  best_orders_strategy :: scenario
  best_hours_strategy :: scenario
  best_qty_strategy :: scenario
  scenarios_for_comparison :: "scenario list"

text \<open>The min/max mode of \<^verbatim>\<open>load_and_process_database\<close>: all strategies, then three winners.\<close>

definition minmax_search ::
  "tables \<Rightarrow> bool \<Rightarrow> bool \<Rightarrow> bool \<Rightarrow> bool \<Rightarrow> py_error + search_result" where
  "minmax_search t ik ii iv iks =
     (case run_strategies t ik ii iv iks get_sorting_strategies of
        Inl err \<Rightarrow> Inl err
      | Inr all_strategy_results \<Rightarrow>
          (case py_max (\<lambda>s. releasable_count (sc_metrics s)) all_strategy_results of
             Inl err \<Rightarrow> Inl err
           | Inr best_orders \<Rightarrow>
               (case py_max (\<lambda>s. releasable_hours (sc_metrics s)) all_strategy_results of
                  Inl err \<Rightarrow> Inl err
                | Inr best_hours \<Rightarrow>
                    (case py_max (\<lambda>s. releasable_qty (sc_metrics s)) all_strategy_results of
                       Inl err \<Rightarrow> Inl err
                     | Inr best_qty \<Rightarrow>
                         Inr \<lparr>best_orders_strategy = best_orders,
                              best_hours_strategy = best_hours,
                              best_qty_strategy = best_qty,
                              scenarios_for_comparison = all_strategy_results\<rparr>))))"


section \<open>The engine of the Qt6 front end\<close>

text \<open>
  \<^verbatim>\<open>AMCBDG_SQL_Qt6.py\<close> has its own copy of the engine, as the method
  \<^verbatim>\<open>ProcessingWorker.process_single_scenario\<close>: the category flags are fields of the
  worker, progress goes to a Qt signal, and there is no debug output. Its loop, commit and
  summary are translated here from that file; the module-level helpers
  (\<^verbatim>\<open>normalize_so_number\<close>, \<^verbatim>\<open>get_sorting_strategies\<close>, \<^verbatim>\<open>build_stock_dictionary\<close>)
  read the same in both files.
\<close>

record processing_worker =
  minmax_mode :: bool
  include_kits :: bool
  include_instruments :: bool
  include_virtuoso :: bool
  include_kit_samples :: bool

definition check_component_qt6 :: "env \<Rightarrow> ledger \<Rightarrow> check_acc \<Rightarrow> bom_row \<Rightarrow> check_acc" where
  "check_component_qt6 e used acc line =
     (case required_of (comp_qty line) of
        Inl err \<Rightarrow>
          acc\<lparr>all_components_available := False,
              shortage_details := shortage_details acc @ [ProcError err]\<rparr>
      | Inr required_qty \<Rightarrow>
          (let cp = comp_part line;
               total_used = dget used cp;
               true_avail = dget (stock e) cp - total_used;
               available = max 0 true_avail;
               available_after_usage = true_avail - of_int required_qty;
               will_be_sufficient = (of_int required_qty \<le> true_avail);
               acc1 = acc\<lparr>component_requirements :=
                            component_requirements acc @ [(cp, required_qty, available)],
                          components_needed :=
                            AList.update cp required_qty (components_needed acc)\<rparr>
           in if \<not> will_be_sufficient then
                (let shortage = \<bar>available_after_usage\<bar> in
                 acc1\<lparr>all_components_available := False,
                       shortage_details := shortage_details acc1 @
                         [case po_match e cp shortage of
                            Some po \<Rightarrow> ShortPO cp shortage po
                          | None \<Rightarrow> ShortNoPO cp (of_int required_qty) true_avail shortage]\<rparr>)
              else acc1))"

fun allocate_qt6 :: "(part \<times> int \<times> rat) list \<Rightarrow> ledger \<Rightarrow> ledger" where
  "allocate_qt6 [] used = used"
| "allocate_qt6 ((p, required_qty, available) # reqs) used =
     allocate_qt6 reqs (used(p \<mapsto> dget used p + of_int required_qty))"

definition process_order_qt6 :: "env \<Rightarrow> nat \<Rightarrow> demand_row \<Rightarrow> ledger \<Rightarrow> result \<times> ledger" where
  "process_order_qt6 e processed row used =
     (let so = order_so processed row;
          p = part_no row;
          demand_qty = demand_qty_of row
      in if p = ''nan'' \<or> demand_qty \<le> 0 then (skipped_result so row demand_qty, used)
         else
           (let pb = is_pb e p;
                bom = bom_of e so;
                base_hours = dget (labor_standards e) p;
                labor_hours = base_hours * demand_qty
            in if 0 < length bom then
                 (let acc = foldl (check_component_qt6 e used) init_acc bom
                  in if all_components_available acc then
                       (mk_result so row pb demand_qty labor_hours True
                          (shortage_details acc) (components_needed acc),
                        allocate_qt6 (component_requirements acc) used)
                     else
                       (mk_result so row pb demand_qty labor_hours False
                          (shortage_details acc) (components_needed acc),
                        used))
               else
                 (let total_used = dget used p;
                      true_avail = dget (stock e) p - total_used;
                      available_after_usage = true_avail - demand_qty
                  in if demand_qty \<le> true_avail then
                       (mk_result so row pb demand_qty labor_hours True [] [],
                        used(p \<mapsto> dget used p + demand_qty))
                     else
                       (let shortage = \<bar>available_after_usage\<bar> in
                        (mk_result so row pb demand_qty labor_hours False
                           [ShortNoPO p demand_qty true_avail shortage] [],
                         used)))))"

fun process_orders_qt6 :: "env \<Rightarrow> nat \<Rightarrow> demand_row list \<Rightarrow> ledger \<Rightarrow> result list \<times> ledger" where
  "process_orders_qt6 e processed [] used = ([], used)"
| "process_orders_qt6 e processed (row # rows) used =
     (let (r, used1) = process_order_qt6 e (Suc processed) row used;
          (rs, used2) = process_orders_qt6 e (Suc processed) rows used1
      in (r # rs, used2))"

definition compute_metrics_qt6 :: "int \<Rightarrow> rat \<Rightarrow> result list \<Rightarrow> py_error + metrics" where
  "compute_metrics_qt6 n_committed q_committed df_results =
     (if df_results = [] then Inl (KeyError ''Status'')
      else
        (let n_total = int (length df_results);
             n_releasable = count_rows (\<lambda>r. r_status r = Release) df_results;
             bvi = category_metrics [''3001'', ''3801''] df_results;
             malosa = category_metrics [''5001''] df_results;
             manuf = category_metrics [''3802''] df_results;
             assem = category_metrics [''3803''] df_results;
             packg = category_metrics [''3804''] df_results;
             malosa_i = category_metrics [''3805''] df_results
         in Inr
          \<lparr>total_orders = n_total,
           releasable_count = n_releasable,
           held_count = n_total - n_releasable,
           pb_count = count_rows r_pb df_results,
           skipped_count = count_rows (\<lambda>r. r_status r = Skipped) df_results,
           total_hours = sum_hours (\<lambda>r. True) df_results,
           releasable_hours = sum_hours (\<lambda>r. r_status r = Release) df_results,
           held_hours = sum_hours (\<lambda>r. r_status r = Hold) df_results,
           total_qty = sum_demand (\<lambda>r. True) df_results,
           releasable_qty = sum_demand (\<lambda>r. r_status r = Release) df_results,
           held_qty = sum_demand (\<lambda>r. r_status r = Hold) df_results,
           kits = add_cat bvi malosa,
           bvi_kits = bvi,
           malosa_kits = malosa,
           instruments = add_cat (add_cat (add_cat manuf assem) packg) malosa_i,
           manufacturing = manuf,
           assembly = assem,
           packaging = packg,
           malosa_instruments = malosa_i,
           virtuoso = category_metrics [''3806''] df_results,
           committed_parts_count = n_committed,
           total_committed_qty = q_committed,
           kit_samples = category_metrics [''KIT SAMPLES''] df_results\<rparr>))"

definition process_single_scenario_qt6 ::
  "processing_worker \<Rightarrow> tables \<Rightarrow> string \<Rightarrow> strategy option \<Rightarrow> py_error + scenario"
where
  "process_single_scenario_qt6 self t scenario_name sorting_strategy =
     (let missing_columns = filter (\<lambda>col. col \<notin> set (main_columns t)) required_columns
      in if missing_columns \<noteq> [] then Inl (MissingColumns missing_columns)
         else
           (let committed = committed_components t;
                committed_parts_count = int (length (remdups (map fst (df_component_demand t))));
                total_committed_qty = sum_list (map snd (df_component_demand t));
                used_components = committed;
                filtered_df_main =
                  apply_sorting (group_sum (df_hours t)) sorting_strategy
                    (filter (filter_mask (include_kits self) (include_instruments self)
                               (include_virtuoso self) (include_kit_samples self))
                       (df_main t));
                (results, used_final) =
                  process_orders_qt6 (scenario_env t) 0 filtered_df_main used_components
            in case compute_metrics_qt6 committed_parts_count total_committed_qty results of
                 Inl err \<Rightarrow> Inl err
               | Inr m \<Rightarrow>
                   Inr \<lparr>sc_name = scenario_name,
                        sc_sorting_strategy =
                          (case sorting_strategy of Some s \<Rightarrow> s_name s
                           | None \<Rightarrow> ''Default (Start Date)''),
                        results_df = results,
                        sc_metrics = m\<rparr>))"

section \<open>Notions used to state the properties\<close>

text \<open>A line of a bill of materials passes the feasibility check.\<close>

definition line_passes :: "env \<Rightarrow> ledger \<Rightarrow> bom_row \<Rightarrow> bool" where
  "line_passes e used line =
     (case required_of (comp_qty line) of
        Inl err \<Rightarrow> False
      | Inr q \<Rightarrow> of_int q \<le> true_available e used (comp_part line))"

text \<open>The quantity a line requires (nothing when its quantity cannot be read).\<close>

definition line_qty :: "bom_row \<Rightarrow> rat" where
  "line_qty line = (case required_of (comp_qty line) of Inl err \<Rightarrow> 0 | Inr q \<Rightarrow> of_int q)"

text \<open>What a bill of materials requires of part \<open>p\<close>, over all its lines.\<close>

definition bom_demand :: "bom_row list \<Rightarrow> part \<Rightarrow> rat" where
  "bom_demand bom p = sum_list (map line_qty (filter (\<lambda>l. comp_part l = p) bom))"

text \<open>
  What the order in position \<open>processed\<close> requires of part \<open>p\<close>: its bill of materials
  when it has one, otherwise its own part in its own quantity.
\<close>

definition order_requirement :: "env \<Rightarrow> nat \<Rightarrow> demand_row \<Rightarrow> part \<Rightarrow> rat" where
  "order_requirement e processed row p =
     (let bom = bom_of e (order_so processed row)
      in if bom \<noteq> [] then bom_demand bom p
         else if part_no row = p then demand_qty_of row else 0)"

text \<open>
  The quantity of part \<open>p\<close> allocated to the released orders of a run: \<open>rows\<close> are the
  orders in processing sequence, \<open>rs\<close> their results, \<open>processed\<close> the number of orders
  before them.
\<close>

fun allocated_to_released ::
  "env \<Rightarrow> nat \<Rightarrow> demand_row list \<Rightarrow> result list \<Rightarrow> part \<Rightarrow> rat" where
  "allocated_to_released e processed (row # rows) (r # rs) p =
     (if r_status r = Release then order_requirement e (Suc processed) row p else 0)
       + allocated_to_released e (Suc processed) rows rs p"
| "allocated_to_released e processed rows rs p = 0"

text \<open>The entries the feasibility pass appends to \<^verbatim>\<open>component_requirements\<close>.\<close>

definition reqs_of :: "env \<Rightarrow> ledger \<Rightarrow> bom_row list \<Rightarrow> (part \<times> int \<times> rat) list" where
  "reqs_of e used bom =
     concat (map (\<lambda>line. case required_of (comp_qty line) of
          Inl err \<Rightarrow> []
        | Inr q \<Rightarrow> [(comp_part line, q, max 0 (true_available e used (comp_part line)))]) bom)"

text \<open>Swapping the two rows of a comparison.\<close>

fun flip3 :: "ord3 \<Rightarrow> ord3" where
  "flip3 Before = After"
| "flip3 Tie = Tie"
| "flip3 After = Before"

section \<open>Example inputs\<close>


definition ex_kit_order :: demand_row where
  "ex_kit_order = \<lparr>so_number = Some ''O1'', part_no = ''K1'', planner = ''3001'',
                    start_date = Some 1, demand = 1\<rparr>"

text \<open>
  Two orders without a bill of materials, for 4 and for 5 of part \<open>A\<close>, with 5 in stock
  and half an hour of labour per unit.
\<close>

definition ex_two_orders :: tables where
  "ex_two_orders =
     \<lparr>main_columns = [''SO No'', ''Part No'', ''Planner'', ''Comm Group'', ''Status'',
                       ''Start Date'', ''Rev Qty Due'', ''Sterility''],
      df_main = [\<lparr>so_number = Some ''O1'', part_no = ''A'', planner = ''3001'',
                    start_date = Some 1, demand = 4\<rparr>,
                 \<lparr>so_number = Some ''O2'', part_no = ''A'', planner = ''3802'',
                    start_date = Some 2, demand = 5\<rparr>],
      df_struct = [], df_component_demand = [], df_ipis = [(''A'', 5)], df_hours = [(''A'', 1 / 2)],
      pos_table = [], clock = 0\<rparr>"

text \<open>The same order when its bill of materials names \<open>X\<close> on two lines, 3 each, with 5 in stock.\<close>

definition ex_dup_env :: env where
  "ex_dup_env =
     \<lparr>stock = [''X'' \<mapsto> 5], labor_standards = Map.empty,
      planned_demand = [\<lparr>bom_so = ''O1'', comp_part = ''X'', comp_qty = QNum 3\<rparr>,
                        \<lparr>bom_so = ''O1'', comp_part = ''X'', comp_qty = QNum 3\<rparr>],
      df_pos = [], now = 0\<rparr>"




definition ex_raw_x_order :: demand_row where
  "ex_raw_x_order = \<lparr>so_number = Some ''O7'', part_no = ''X'', planner = ''3001'',
                      start_date = Some 1, demand = 2\<rparr>"

text \<open>
  Purchase orders for part \<open>A\<close> at time 7: 9 due at 5 (past), 3 due at 10, 5 due at 20.
  There are 4 of \<open>A\<close> in stock. Order \<open>O2\<close> has a bill of materials asking for 9 of \<open>A\<close>;
  order \<open>O9\<close> has none and asks for 9 of \<open>A\<close> itself.
\<close>

definition ex_po_past :: po_row where
  "ex_po_past = \<lparr>po_number = ''P0'', po_part = ''A'', qty_due = 9, promised = Some 5\<rparr>"

definition ex_po_small :: po_row where
  "ex_po_small = \<lparr>po_number = ''P1'', po_part = ''A'', qty_due = 3, promised = Some 10\<rparr>"

definition ex_po_fit :: po_row where
  "ex_po_fit = \<lparr>po_number = ''P2'', po_part = ''A'', qty_due = 5, promised = Some 20\<rparr>"

definition ex_po_env :: env where
  "ex_po_env =
     \<lparr>stock = [''A'' \<mapsto> 4], labor_standards = Map.empty,
      planned_demand = [\<lparr>bom_so = ''O2'', comp_part = ''A'', comp_qty = QNum 9\<rparr>],
      df_pos = [ex_po_past, ex_po_small, ex_po_fit], now = 7\<rparr>"

definition ex_po_bom_order :: demand_row where
  "ex_po_bom_order = \<lparr>so_number = Some ''O2'', part_no = ''K2'', planner = ''3001'',
                       start_date = Some 1, demand = 1\<rparr>"

definition ex_po_raw_order :: demand_row where
  "ex_po_raw_order = \<lparr>so_number = Some ''O9'', part_no = ''A'', planner = ''3001'',
                       start_date = Some 1, demand = 9\<rparr>"

text \<open>A demand table whose only order has no quantity.\<close>

definition ex_zero_demand :: tables where
  "ex_zero_demand =
     \<lparr>main_columns = [''SO No'', ''Part No'', ''Planner'', ''Comm Group'', ''Status'',
                       ''Start Date'', ''Rev Qty Due'', ''Sterility''],
      df_main = [\<lparr>so_number = Some ''O1'', part_no = ''A'', planner = ''3001'',
                    start_date = Some 1, demand = 0\<rparr>],
      df_struct = [], df_component_demand = [], df_ipis = [(''A'', 5)], df_hours = [],
      pos_table = [], clock = 0\<rparr>"

text \<open>A bill of materials with an unreadable quantity, followed by a second order.\<close>

definition ex_bad_env :: env where
  "ex_bad_env =
     \<lparr>stock = [''X'' \<mapsto> 5, ''Y'' \<mapsto> 5], labor_standards = Map.empty,
      planned_demand = [\<lparr>bom_so = ''O1'', comp_part = ''Y'', comp_qty = QNum 1\<rparr>,
                        \<lparr>bom_so = ''O1'', comp_part = ''X'', comp_qty = QBad\<rparr>],
      df_pos = [], now = 0\<rparr>"

text \<open>A demand table without the quantity and start date columns.\<close>

definition ex_missing_columns :: tables where
  "ex_missing_columns =
     \<lparr>main_columns = [''SO No'', ''Part No'', ''Planner''],
      df_main = [], df_struct = [], df_component_demand = [], df_ipis = [], df_hours = [],
      pos_table = [], clock = 0\<rparr>"

text \<open>Two orders with the same demand: \<open>1\<close> starts at 5, \<open>2\<close> starts at 1.\<close>

definition ex_tie_a :: demand_row where
  "ex_tie_a = \<lparr>so_number = Some ''1'', part_no = ''A'', planner = ''3001'',
                start_date = Some 5, demand = 5\<rparr>"

definition ex_tie_b :: demand_row where
  "ex_tie_b = \<lparr>so_number = Some ''2'', part_no = ''B'', planner = ''3001'',
                start_date = Some 1, demand = 5\<rparr>"

text \<open>A Qt6 worker with every category selected.\<close>

definition ex_worker :: processing_worker where
  "ex_worker = \<lparr>minmax_mode = True, include_kits = True, include_instruments = True,
                 include_virtuoso = True, include_kit_samples = True\<rparr>"

text \<open>What the strategy search returns on the two orders of the example.\<close>

definition ex_search :: search_result where
  "ex_search = projr (minmax_search ex_two_orders True True True True)"

section \<open>The ledger in binary floating point\<close>

text \<open>
  The quantity columns reach the loop as 64-bit floats, and Python adds and subtracts
  them with rounding, while the quantity of a line of a bill of materials is a Python
  integer (the result of \<^verbatim>\<open>int(...)\<close>), as is the default \<open>0\<close> of \<^verbatim>\<open>dict.get\<close>. This
  section translates the part of the loop that decides the status of an order and updates
  \<^verbatim>\<open>used_components\<close> with that arithmetic. A float is the rational number it denotes.
\<close>

datatype pynum = PInt int | PFloat rat

definition val :: "pynum \<Rightarrow> rat" where
  "val x = (case x of PInt n \<Rightarrow> of_int n | PFloat q \<Rightarrow> q)"

text \<open>The number of binary digits of a positive integer.\<close>

function bit_length :: "int \<Rightarrow> int" where
  "bit_length n = (if n \<le> 0 then 0 else 1 + bit_length (n div 2))"
  by pat_completeness auto
termination
  by (relation "measure nat") auto

definition pow2 :: "int \<Rightarrow> rat" where
  "pow2 k = (if 0 \<le> k then 2 ^ nat k else 1 / 2 ^ nat (- k))"

text \<open>For positive \<open>x\<close>, the exponent \<open>e\<close> with \<open>2\<^sup>e \<le> x < 2\<^sup>e\<^sup>+\<^sup>1\<close>.\<close>

definition floor_log2 :: "rat \<Rightarrow> int" where
  "floor_log2 x =
     (let (p, q) = quotient_of x;
          d = bit_length p - bit_length q
      in if pow2 d \<le> x then d else d - 1)"

definition round_half_even :: "rat \<Rightarrow> int" where
  "round_half_even y =
     (let f = \<lfloor>y\<rfloor>; d = y - of_int f
      in if d < 1 / 2 then f else if 1 / 2 < d then f + 1 else if even f then f else f + 1)"

text \<open>
  Rounding to the nearest 64-bit float, ties to the even significand: 53 significant
  bits, and a spacing of \<open>2\<^sup>-\<^sup>1\<^sup>0\<^sup>7\<^sup>4\<close> below the normal range. Results of magnitude
  \<open>2\<^sup>1\<^sup>0\<^sup>2\<^sup>4\<close> or more, which Python turns into an infinity, are not represented.
\<close>

definition round_f64 :: "rat \<Rightarrow> rat" where
  "round_f64 x =
     (if x = 0 then 0
      else (let e = floor_log2 \<bar>x\<bar>; u = pow2 (max (e - 52) (- 1074))
            in of_int (round_half_even (x / u)) * u))"

text \<open>\<^verbatim>\<open>float(x)\<close>, the conversion Python applies to an integer operand next to a float.\<close>

definition to_f64 :: "pynum \<Rightarrow> rat" where
  "to_f64 x = (case x of PInt n \<Rightarrow> round_f64 (of_int n) | PFloat q \<Rightarrow> q)"

text \<open>\<^verbatim>\<open>a + b\<close> and \<^verbatim>\<open>a - b\<close>: exact on two integers, rounded as soon as one operand is a float.\<close>

definition py_add :: "pynum \<Rightarrow> pynum \<Rightarrow> pynum" where
  "py_add a b =
     (case a of
        PInt m \<Rightarrow> (case b of PInt n \<Rightarrow> PInt (m + n)
                   | PFloat y \<Rightarrow> PFloat (round_f64 (to_f64 a + y)))
      | PFloat x \<Rightarrow> PFloat (round_f64 (x + to_f64 b)))"

definition py_sub :: "pynum \<Rightarrow> pynum \<Rightarrow> pynum" where
  "py_sub a b =
     (case a of
        PInt m \<Rightarrow> (case b of PInt n \<Rightarrow> PInt (m - n)
                   | PFloat y \<Rightarrow> PFloat (round_f64 (to_f64 a - y)))
      | PFloat x \<Rightarrow> PFloat (round_f64 (x - to_f64 b)))"

text \<open>\<^verbatim>\<open>a >= b\<close> compares the two numbers as they are.\<close>

definition py_ge :: "pynum \<Rightarrow> pynum \<Rightarrow> bool" where
  "py_ge a b = (val b \<le> val a)"

text \<open>The dictionaries \<^verbatim>\<open>stock\<close> and \<^verbatim>\<open>used_components\<close> with their run-time numbers.\<close>

type_synonym fledger = "part \<rightharpoonup> pynum"

text \<open>\<^verbatim>\<open>d.get(k, 0)\<close>\<close>

definition fget :: "fledger \<Rightarrow> part \<Rightarrow> pynum" where
  "fget d k = (case d k of None \<Rightarrow> PInt 0 | Some v \<Rightarrow> v)"

record fenv =
  f_stock :: fledger
  f_planned_demand :: "bom_row list"

text \<open>The two variables of the feasibility pass that decide the status and the commit.\<close>

record fcheck_acc =
  f_all_available :: bool
  f_requirements :: "(part \<times> int) list"

text \<open>
  One iteration of \<^verbatim>\<open>for _, comp in bom.iterrows()\<close>: \<^verbatim>\<open>true_available\<close> is a rounded
  difference, compared with the integer \<^verbatim>\<open>required_qty\<close>.
\<close>

definition check_component_f64 :: "fenv \<Rightarrow> fledger \<Rightarrow> fcheck_acc \<Rightarrow> bom_row \<Rightarrow> fcheck_acc" where
  "check_component_f64 fe used acc line =
     (case required_of (comp_qty line) of
        Inl err \<Rightarrow> acc\<lparr>f_all_available := False\<rparr>
      | Inr required_qty \<Rightarrow>
          (let cp = comp_part line;
               total_used = fget used cp;
               true_avail = py_sub (fget (f_stock fe) cp) total_used;
               will_be_sufficient = py_ge true_avail (PInt required_qty);
               acc1 = acc\<lparr>f_requirements := f_requirements acc @ [(cp, required_qty)]\<rparr>
           in if \<not> will_be_sufficient then acc1\<lparr>f_all_available := False\<rparr> else acc1))"

text \<open>The commit loop, each sum rounded.\<close>

fun allocate_f64 :: "(part \<times> int) list \<Rightarrow> fledger \<Rightarrow> fledger" where
  "allocate_f64 [] used = used"
| "allocate_f64 ((p, required_qty) # reqs) used =
     allocate_f64 reqs (used(p \<mapsto> py_add (fget used p) (PInt required_qty)))"

text \<open>
  The body of the loop over the orders, reduced to the status of the order and the new
  \<^verbatim>\<open>used_components\<close>. The demand of an order is a float.
\<close>

definition order_f64 :: "fenv \<Rightarrow> nat \<Rightarrow> demand_row \<Rightarrow> fledger \<Rightarrow> status \<times> fledger" where
  "order_f64 fe processed row used =
     (let so = order_so processed row;
          p = part_no row;
          demand_qty = demand_qty_of row
      in if p = ''nan'' \<or> demand_qty \<le> 0 then (Skipped, used)
         else
           (let bom = filter (\<lambda>r. bom_so r = so) (f_planned_demand fe)
            in if 0 < length bom then
                 (let acc = foldl (check_component_f64 fe used)
                              \<lparr>f_all_available = True, f_requirements = []\<rparr> bom
                  in if f_all_available acc
                     then (Release, allocate_f64 (f_requirements acc) used)
                     else (Hold, used))
               else
                 (let total_used = fget used p;
                      true_avail = py_sub (fget (f_stock fe) p) total_used
                  in if py_ge true_avail (PFloat demand_qty)
                     then (Release, used(p \<mapsto> py_add (fget used p) (PFloat demand_qty)))
                     else (Hold, used))))"

fun orders_f64 :: "fenv \<Rightarrow> nat \<Rightarrow> demand_row list \<Rightarrow> fledger \<Rightarrow> status list \<times> fledger" where
  "orders_f64 fe processed [] used = ([], used)"
| "orders_f64 fe processed (row # rows) used =
     (let (s, used1) = order_f64 fe (Suc processed) row used;
          (ss, used2) = orders_f64 fe (Suc processed) rows used1
      in (s # ss, used2))"

text \<open>An addition is exact when its result is the true sum of the two numbers.\<close>

definition add_exact :: "pynum \<Rightarrow> pynum \<Rightarrow> bool" where
  "add_exact a b = (val (py_add a b) = val a + val b)"

text \<open>Every addition of the commit loop is exact.\<close>

fun allocate_exact :: "(part \<times> int) list \<Rightarrow> fledger \<Rightarrow> bool" where
  "allocate_exact [] used = True"
| "allocate_exact ((p, required_qty) # reqs) used =
     (add_exact (fget used p) (PInt required_qty) \<and>
      allocate_exact reqs (used(p \<mapsto> py_add (fget used p) (PInt required_qty))))"

text \<open>
  No addition to \<^verbatim>\<open>used_components\<close> rounds while the order is processed: none of
  the commit loop when the order has a bill of materials and is released, and not the one
  addition of a released order without a bill.
\<close>

definition order_exact :: "fenv \<Rightarrow> nat \<Rightarrow> demand_row \<Rightarrow> fledger \<Rightarrow> bool" where
  "order_exact fe processed row used =
     (let so = order_so processed row;
          p = part_no row;
          demand_qty = demand_qty_of row
      in if p = ''nan'' \<or> demand_qty \<le> 0 then True
         else
           (let bom = filter (\<lambda>r. bom_so r = so) (f_planned_demand fe)
            in if 0 < length bom then
                 (let acc = foldl (check_component_f64 fe used)
                              \<lparr>f_all_available = True, f_requirements = []\<rparr> bom
                  in if f_all_available acc then allocate_exact (f_requirements acc) used
                     else True)
               else
                 (if py_ge (py_sub (fget (f_stock fe) p) (fget used p)) (PFloat demand_qty)
                  then add_exact (fget used p) (PFloat demand_qty) else True)))"

text \<open>The same for a whole run, each order seeing the dictionary the orders before it left.\<close>

fun orders_exact :: "fenv \<Rightarrow> nat \<Rightarrow> demand_row list \<Rightarrow> fledger \<Rightarrow> bool" where
  "orders_exact fe processed [] used = True"
| "orders_exact fe processed (row # rows) used =
     (order_exact fe (Suc processed) row used \<and>
      orders_exact fe (Suc processed) rows (snd (order_f64 fe (Suc processed) row used)))"

text \<open>The entries the feasibility pass appends to \<^verbatim>\<open>component_requirements\<close>.\<close>

definition freqs_of :: "bom_row list \<Rightarrow> (part \<times> int) list" where
  "freqs_of bom =
     concat (map (\<lambda>line. case required_of (comp_qty line) of
                            Inl err \<Rightarrow> []
                          | Inr q \<Rightarrow> [(comp_part line, q)]) bom)"

text \<open>The numbers a dictionary holds, and the inputs of the loop with those numbers.\<close>

definition absl :: "fledger \<Rightarrow> ledger" where
  "absl d = (\<lambda>p. map_option val (d p))"

definition abs_env :: "fenv \<Rightarrow> env" where
  "abs_env fe =
     \<lparr>stock = absl (f_stock fe), labor_standards = Map.empty,
      planned_demand = f_planned_demand fe, df_pos = [], now = 0\<rparr>"

text \<open>The free quantity of part \<open>p\<close>: what the stock holds minus what is used.\<close>

definition f_free :: "fenv \<Rightarrow> fledger \<Rightarrow> part \<Rightarrow> rat" where
  "f_free fe used p = val (fget (f_stock fe) p) - val (fget used p)"

text \<open>
  The quantity of part \<open>p\<close> allocated to the released orders of a run, from the statuses
  of the orders in processing sequence.
\<close>

fun f_allocated :: "fenv \<Rightarrow> nat \<Rightarrow> demand_row list \<Rightarrow> status list \<Rightarrow> part \<Rightarrow> rat" where
  "f_allocated fe processed (row # rows) (s # ss) p =
     (if s = Release then order_requirement (abs_env fe) (Suc processed) row p else 0)
       + f_allocated fe (Suc processed) rows ss p"
| "f_allocated fe processed rows ss p = 0"

text \<open>
  Half a unit of \<open>A\<close> in stock, a tenth committed, and two orders for two tenths each, all
  as the floats nearest to these decimals.
\<close>

definition ex_frac_env :: fenv where
  "ex_frac_env = \<lparr>f_stock = [''A'' \<mapsto> PFloat (round_f64 (1 / 2))], f_planned_demand = []\<rparr>"

definition ex_frac_used :: fledger where
  "ex_frac_used = [''A'' \<mapsto> PFloat (round_f64 (1 / 10))]"

definition ex_frac_orders :: "demand_row list" where
  "ex_frac_orders =
     [\<lparr>so_number = Some ''O1'', part_no = ''A'', planner = ''3001'',
        start_date = Some 1, demand = round_f64 (2 / 10)\<rparr>,
      \<lparr>so_number = Some ''O2'', part_no = ''A'', planner = ''3001'',
        start_date = Some 2, demand = round_f64 (2 / 10)\<rparr>]"

text \<open>
  Whole quantities: 5 of \<open>A\<close> and 7 of \<open>X\<close> in stock, 1 of \<open>X\<close> committed, an order for 4
  of \<open>A\<close>, an order for 5 of \<open>A\<close>, and a kit order whose bill asks for 2 of \<open>X\<close> and 1
  of \<open>A\<close>.
\<close>

definition ex_whole_env :: fenv where
  "ex_whole_env =
     \<lparr>f_stock = [''A'' \<mapsto> PFloat 5, ''X'' \<mapsto> PFloat 7],
      f_planned_demand = [\<lparr>bom_so = ''O3'', comp_part = ''X'', comp_qty = QNum 2\<rparr>,
                          \<lparr>bom_so = ''O3'', comp_part = ''A'', comp_qty = QNum 1\<rparr>]\<rparr>"

definition ex_whole_used :: fledger where
  "ex_whole_used = [''X'' \<mapsto> PFloat 1]"

definition ex_whole_orders :: "demand_row list" where
  "ex_whole_orders =
     [\<lparr>so_number = Some ''O1'', part_no = ''A'', planner = ''3001'',
        start_date = Some 1, demand = 4\<rparr>,
      \<lparr>so_number = Some ''O2'', part_no = ''A'', planner = ''3001'',
        start_date = Some 2, demand = 5\<rparr>,
      \<lparr>so_number = Some ''O3'', part_no = ''K3'', planner = ''3001'',
        start_date = Some 3, demand = 1\<rparr>]"

section \<open>Facts about the ledger and the commit\<close>

declare show_nat.simps [simp del]

lemma dget_upd: "dget (m(k \<mapsto> v)) p = (if p = k then v else dget m p)"
  by (simp add: dget_def)

text \<open>The commit adds, for each part, the quantities of all entries naming it.\<close>

lemma dget_allocate:
  "dget (allocate reqs used) p =
     dget used p + sum_list (map (\<lambda>x. of_int (fst (snd x))) (filter (\<lambda>x. fst x = p) reqs))"
proof (induction reqs arbitrary: used)
  case Nil
  then show ?case by simp
next
  case (Cons x reqs)
  obtain a q b where x: "x = (a, q, b)" by (cases x)
  show ?case
    unfolding x allocate.simps Cons.IH
    by (simp add: dget_upd)
qed

lemma check_component_all:
  "all_components_available (check_component e used acc line) =
     (all_components_available acc \<and> line_passes e used line)"
  by (auto simp: check_component_def line_passes_def true_available_def Let_def split: sum.splits)

lemma foldl_check_all:
  "all_components_available (foldl (check_component e used) acc bom) =
     (all_components_available acc \<and> list_all (line_passes e used) bom)"
  by (induction bom arbitrary: acc) (auto simp: check_component_all)

lemma check_component_reqs:
  "component_requirements (check_component e used acc line) =
     component_requirements acc @
       (case required_of (comp_qty line) of
          Inl err \<Rightarrow> []
        | Inr q \<Rightarrow> [(comp_part line, q, max 0 (true_available e used (comp_part line)))])"
  by (auto simp: check_component_def true_available_def Let_def split: sum.splits)

lemma foldl_check_reqs:
  "component_requirements (foldl (check_component e used) acc bom) =
     component_requirements acc @ reqs_of e used bom"
  by (induction bom arbitrary: acc) (auto simp: check_component_reqs reqs_of_def)

lemma sum_reqs_of:
  "sum_list (map (\<lambda>x. of_int (fst (snd x))) (filter (\<lambda>x. fst x = p) (reqs_of e used bom)))
     = bom_demand bom p"
  by (induction bom) (auto simp: reqs_of_def bom_demand_def line_qty_def split: sum.splits)

lemma true_available_allocate:
  "true_available e (allocate (reqs_of e used bom) used) p =
     true_available e used p - bom_demand bom p"
  by (simp add: true_available_def dget_allocate sum_reqs_of)

section \<open>Facts about one order\<close>

lemma process_order_skipped:
  assumes "is_skipped row"
  shows "process_order e n row used =
           (skipped_result (order_so n row) row (demand_qty_of row), used)"
  using assms by (simp add: process_order_def is_skipped_def Let_def)

lemma process_order_bom:
  assumes "\<not> is_skipped row" and "bom_of e (order_so n row) \<noteq> []"
  shows "r_status (fst (process_order e n row used)) =
           (if list_all (line_passes e used) (bom_of e (order_so n row)) then Release else Hold)"
    and "snd (process_order e n row used) =
           (if list_all (line_passes e used) (bom_of e (order_so n row))
            then allocate (reqs_of e used (bom_of e (order_so n row))) used else used)"
  using assms
  by (simp_all add: process_order_def is_skipped_def Let_def foldl_check_all foldl_check_reqs
        init_acc_def mk_result_def)

lemma process_order_raw:
  assumes "\<not> is_skipped row" and "bom_of e (order_so n row) = []"
  shows "r_status (fst (process_order e n row used)) =
           (if demand_qty_of row \<le> true_available e used (part_no row) then Release else Hold)"
    and "snd (process_order e n row used) =
           (if demand_qty_of row \<le> true_available e used (part_no row)
            then used(part_no row \<mapsto> dget used (part_no row) + demand_qty_of row) else used)"
  using assms
  by (simp_all add: process_order_def is_skipped_def Let_def true_available_def mk_result_def)

text \<open>
  Whatever the kind of order, the free quantity of a part drops by what the order
  requires of it when the order is released, and stays as it was otherwise.
\<close>

lemma process_order_step:
  "true_available e (snd (process_order e n row used)) p =
     true_available e used p -
       (if r_status (fst (process_order e n row used)) = Release
        then order_requirement e n row p else 0)"
proof (cases "is_skipped row")
  case True
  then show ?thesis by (simp add: process_order_skipped skipped_result_def)
next
  case ns: False
  show ?thesis
  proof (cases "bom_of e (order_so n row) = []")
    case True
    show ?thesis
      unfolding process_order_raw[OF ns True]
      by (simp add: order_requirement_def True true_available_def dget_upd)
  next
    case False
    show ?thesis
      unfolding process_order_bom[OF ns False]
      by (simp add: order_requirement_def False true_available_allocate)
  qed
qed

section \<open>Atomicity of an order with a bill of materials\<close>



section \<open>Conservation over a run\<close>

lemma conservation_loop:
  assumes "process_orders e n rows used = (rs, used_final)"
  shows "allocated_to_released e n rows rs p + true_available e used_final p
           = true_available e used p"
  using assms
proof (induction rows arbitrary: n used rs used_final)
  case Nil
  then show ?case by simp
next
  case (Cons row rows)
  obtain r used1 where po: "process_order e (Suc n) row used = (r, used1)"
    by (cases "process_order e (Suc n) row used")
  obtain rs' used2 where ps: "process_orders e (Suc n) rows used1 = (rs', used2)"
    by (cases "process_orders e (Suc n) rows used1")
  from Cons.prems po ps have eq: "rs = r # rs'" "used_final = used2" by simp_all
  have step: "true_available e used1 p =
      true_available e used p -
        (if r_status r = Release then order_requirement e (Suc n) row p else 0)"
    using process_order_step[of e "Suc n" row used p] po by simp
  from Cons.IH[OF ps] step show ?case unfolding eq by simp
qed

text \<open>
  In exact arithmetic the balance holds for any tables, any sorting strategy or none, and
  any category flags: the quantity of \<open>p\<close> allocated to the released orders plus the
  free quantity of \<open>p\<close> at the end of the run is the free quantity at its start.
\<close>

lemma conservation_exact_arithmetic:
  "allocated_to_released (scenario_env t) 0 (scenario_orders t strat ik ii iv iks)
       (fst (process_orders (scenario_env t) 0 (scenario_orders t strat ik ii iv iks)
               (committed_components t))) p
     + true_available (scenario_env t)
         (snd (process_orders (scenario_env t) 0 (scenario_orders t strat ik ii iv iks)
                 (committed_components t))) p
     = true_available (scenario_env t) (committed_components t) p"
  by (rule conservation_loop) simp

section \<open>Conservation in floating point\<close>

declare bit_length.simps [simp del]

lemma fget_upd: "fget (m(k \<mapsto> v)) p = (if p = k then v else fget m p)"
  by (simp add: fget_def)

lemma bom_of_abs_env:
  "filter (\<lambda>r. bom_so r = so) (f_planned_demand fe) = bom_of (abs_env fe) so"
  by (simp add: bom_of_def abs_env_def)

lemma check_component_f64_reqs:
  "f_requirements (check_component_f64 fe used acc line) =
     f_requirements acc @
       (case required_of (comp_qty line) of Inl err \<Rightarrow> [] | Inr q \<Rightarrow> [(comp_part line, q)])"
  by (auto simp: check_component_f64_def Let_def split: sum.splits)

lemma foldl_check_f64_reqs:
  "f_requirements (foldl (check_component_f64 fe used) acc bom) =
     f_requirements acc @ freqs_of bom"
  by (induction bom arbitrary: acc) (auto simp: check_component_f64_reqs freqs_of_def)

lemma sum_freqs_of:
  "sum_list (map (\<lambda>x. of_int (snd x)) (filter (\<lambda>x. fst x = p) (freqs_of bom)))
     = bom_demand bom p"
  by (induction bom) (auto simp: freqs_of_def bom_demand_def line_qty_def split: sum.splits)

text \<open>When no addition of the commit rounds, the commit adds the true sums.\<close>

lemma val_allocate_f64:
  assumes "allocate_exact reqs used"
  shows "val (fget (allocate_f64 reqs used) p) =
     val (fget used p) + sum_list (map (\<lambda>x. of_int (snd x)) (filter (\<lambda>x. fst x = p) reqs))"
  using assms
proof (induction reqs arbitrary: used)
  case Nil
  then show ?case by simp
next
  case (Cons x reqs)
  obtain a q where x: "x = (a, q)" by (cases x)
  let ?u = "used(a \<mapsto> py_add (fget used a) (PInt q))"
  from Cons.prems have ex: "add_exact (fget used a) (PInt q)" and rest: "allocate_exact reqs ?u"
    unfolding x by simp_all
  have v: "val (py_add (fget used a) (PInt q)) = val (fget used a) + of_int q"
    using ex by (simp add: add_exact_def val_def)
  have "val (fget (allocate_f64 (x # reqs) used) p) = val (fget (allocate_f64 reqs ?u) p)"
    unfolding x by simp
  also have "\<dots> = val (fget ?u p) +
      sum_list (map (\<lambda>x. of_int (snd x)) (filter (\<lambda>x. fst x = p) reqs))"
    by (rule Cons.IH[OF rest])
  finally show ?case unfolding x using v by (simp add: fget_upd)
qed

text \<open>
  One order: when no addition to \<^verbatim>\<open>used_components\<close> rounds, the free quantity of a part
  drops by what the order requires of it if the order is released, and stays otherwise.
\<close>

lemma order_f64_step:
  assumes "order_exact fe n row used"
  shows "f_free fe (snd (order_f64 fe n row used)) p =
     f_free fe used p -
       (if fst (order_f64 fe n row used) = Release
        then order_requirement (abs_env fe) n row p else 0)"
proof (cases "part_no row = ''nan'' \<or> demand_qty_of row \<le> 0")
  case True
  then show ?thesis by (simp add: order_f64_def Let_def)
next
  case ns: False
  let ?bom = "bom_of (abs_env fe) (order_so n row)"
  show ?thesis
  proof (cases "?bom = []")
    case raw: True
    show ?thesis
    proof (cases "py_ge (py_sub (fget (f_stock fe) (part_no row)) (fget used (part_no row)))
                    (PFloat (demand_qty_of row))")
      case True
      with assms ns raw have "add_exact (fget used (part_no row)) (PFloat (demand_qty_of row))"
        by (simp add: order_exact_def Let_def bom_of_abs_env)
      then have v: "val (py_add (fget used (part_no row)) (PFloat (demand_qty_of row))) =
          val (fget used (part_no row)) + demand_qty_of row"
        by (simp add: add_exact_def val_def)
      from True ns raw have
        "order_f64 fe n row used =
           (Release, used(part_no row \<mapsto> py_add (fget used (part_no row)) (PFloat (demand_qty_of row))))"
        by (simp add: order_f64_def Let_def bom_of_abs_env)
      then show ?thesis
        using v raw by (auto simp: f_free_def fget_upd order_requirement_def)
    next
      case False
      with ns raw have "order_f64 fe n row used = (Hold, used)"
        by (simp add: order_f64_def Let_def bom_of_abs_env)
      then show ?thesis by simp
    qed
  next
    case bom: False
    let ?acc = "foldl (check_component_f64 fe used)
                  \<lparr>f_all_available = True, f_requirements = []\<rparr> ?bom"
    have reqs: "f_requirements ?acc = freqs_of ?bom"
      by (simp add: foldl_check_f64_reqs)
    show ?thesis
    proof (cases "f_all_available ?acc")
      case True
      with assms ns bom have "allocate_exact (f_requirements ?acc) used"
        by (simp add: order_exact_def Let_def bom_of_abs_env)
      then have "val (fget (allocate_f64 (freqs_of ?bom) used) p) =
          val (fget used p) + bom_demand ?bom p"
        unfolding reqs by (simp add: val_allocate_f64 sum_freqs_of)
      moreover from True ns bom have
        "order_f64 fe n row used = (Release, allocate_f64 (freqs_of ?bom) used)"
        by (simp add: order_f64_def Let_def bom_of_abs_env reqs)
      ultimately show ?thesis
        using bom by (simp add: f_free_def order_requirement_def)
    next
      case False
      with ns bom have "order_f64 fe n row used = (Hold, used)"
        by (simp add: order_f64_def Let_def bom_of_abs_env)
      then show ?thesis by simp
    qed
  qed
qed

lemma conservation_f64_loop:
  assumes "orders_exact fe n rows used"
  shows "f_allocated fe n rows (fst (orders_f64 fe n rows used)) p
           + f_free fe (snd (orders_f64 fe n rows used)) p
         = f_free fe used p"
  using assms
proof (induction rows arbitrary: n used)
  case Nil
  then show ?case by simp
next
  case (Cons row rows)
  let ?s = "fst (order_f64 fe (Suc n) row used)"
  let ?u = "snd (order_f64 fe (Suc n) row used)"
  from Cons.prems have ex1: "order_exact fe (Suc n) row used"
    and ex2: "orders_exact fe (Suc n) rows ?u" by simp_all
  have run: "orders_f64 fe n (row # rows) used =
      (?s # fst (orders_f64 fe (Suc n) rows ?u), snd (orders_f64 fe (Suc n) rows ?u))"
    by (simp add: split_beta Let_def)
  from Cons.IH[OF ex2] order_f64_step[OF ex1, of p] show ?case
    unfolding run by simp
qed

text \<open>
  Claim C2, as amended. For every part \<open>p\<close> and every run, whatever the processing
  order, in which no addition to \<^verbatim>\<open>used_components\<close> rounds: the quantity of \<open>p\<close>
  allocated to the released orders of the run plus the free quantity of \<open>p\<close> (stock
  minus used) at the end of the run equals the free quantity of \<open>p\<close> at the start of
  the run.
\<close>

theorem C2_conservation_without_rounding:
  assumes "orders_exact fe 0 rows used"
  shows "f_allocated fe 0 rows (fst (orders_f64 fe 0 rows used)) p
           + f_free fe (snd (orders_f64 fe 0 rows used)) p
         = f_free fe used p"
  using assms by (rule conservation_f64_loop)

text \<open>
  With whole quantities nothing rounds: of 5 of \<open>A\<close>, 4 go to the first order and 1 to
  the kit order, none is left; of the 6 free of \<open>X\<close>, 2 go to the kit order and 4 are
  left. The order for 5 of \<open>A\<close> is held.
\<close>

theorem C2_conservation_without_rounding_witness:
  "orders_exact ex_whole_env 0 ex_whole_orders ex_whole_used
   \<and> fst (orders_f64 ex_whole_env 0 ex_whole_orders ex_whole_used) = [Release, Hold, Release]
   \<and> f_allocated ex_whole_env 0 ex_whole_orders
        (fst (orders_f64 ex_whole_env 0 ex_whole_orders ex_whole_used)) ''A'' = 5
   \<and> f_free ex_whole_env (snd (orders_f64 ex_whole_env 0 ex_whole_orders ex_whole_used)) ''A'' = 0
   \<and> f_free ex_whole_env ex_whole_used ''A'' = 5
   \<and> f_allocated ex_whole_env 0 ex_whole_orders
        (fst (orders_f64 ex_whole_env 0 ex_whole_orders ex_whole_used)) ''X'' = 2
   \<and> f_free ex_whole_env (snd (orders_f64 ex_whole_env 0 ex_whole_orders ex_whole_used)) ''X'' = 4
   \<and> f_free ex_whole_env ex_whole_used ''X'' = 6"
proof -
  have h: "orders_exact ex_whole_env 0 ex_whole_orders ex_whole_used" by code_simp
  have s: "fst (orders_f64 ex_whole_env 0 ex_whole_orders ex_whole_used) = [Release, Hold, Release]"
    by code_simp
  have a: "f_allocated ex_whole_env 0 ex_whole_orders
        (fst (orders_f64 ex_whole_env 0 ex_whole_orders ex_whole_used)) ''A'' = 5"
    "f_allocated ex_whole_env 0 ex_whole_orders
        (fst (orders_f64 ex_whole_env 0 ex_whole_orders ex_whole_used)) ''X'' = 2"
    by code_simp+
  have i: "f_free ex_whole_env ex_whole_used ''A'' = 5" "f_free ex_whole_env ex_whole_used ''X'' = 6"
    by code_simp+
  from C2_conservation_without_rounding[OF h, of "''A''"]
       C2_conservation_without_rounding[OF h, of "''X''"] a i
  have "f_free ex_whole_env (snd (orders_f64 ex_whole_env 0 ex_whole_orders ex_whole_used)) ''A'' = 0"
    "f_free ex_whole_env (snd (orders_f64 ex_whole_env 0 ex_whole_orders ex_whole_used)) ''X'' = 4"
    by simp_all
  with h s a i show ?thesis by simp
qed

text \<open>
  Claim C2, as stated, fails. With 0.5 of \<open>A\<close> in stock, 0.1 committed and two orders
  for 0.2 each, the first order is released and \<^verbatim>\<open>used_components\<close> becomes the float
  0.30000000000000004, the rounded sum of 0.1 and 0.2; the second order is held. The
  quantity allocated and the quantity left do not add up to the quantity the run started
  with, neither as exact numbers nor when Python forms the sum and the differences.
\<close>

theorem C2_rounding_counterexample:
  "fst (orders_f64 ex_frac_env 0 ex_frac_orders ex_frac_used) = [Release, Hold]
   \<and> val (fget ex_frac_used ''A'') = 3602879701896397 / 36028797018963968
   \<and> val (fget (snd (orders_f64 ex_frac_env 0 ex_frac_orders ex_frac_used)) ''A'')
       = 1351079888211149 / 4503599627370496
   \<and> f_allocated ex_frac_env 0 ex_frac_orders
        (fst (orders_f64 ex_frac_env 0 ex_frac_orders ex_frac_used)) ''A''
       = 3602879701896397 / 18014398509481984
   \<and> f_free ex_frac_env (snd (orders_f64 ex_frac_env 0 ex_frac_orders ex_frac_used)) ''A''
       = 900719925474099 / 4503599627370496
   \<and> f_free ex_frac_env ex_frac_used ''A'' = 14411518807585587 / 36028797018963968
   \<and> f_allocated ex_frac_env 0 ex_frac_orders
        (fst (orders_f64 ex_frac_env 0 ex_frac_orders ex_frac_used)) ''A''
       + f_free ex_frac_env (snd (orders_f64 ex_frac_env 0 ex_frac_orders ex_frac_used)) ''A''
       \<noteq> f_free ex_frac_env ex_frac_used ''A''
   \<and> val (py_add (PFloat (round_f64 (2 / 10)))
              (py_sub (fget (f_stock ex_frac_env) ''A'')
                 (fget (snd (orders_f64 ex_frac_env 0 ex_frac_orders ex_frac_used)) ''A'')))
       \<noteq> val (py_sub (fget (f_stock ex_frac_env) ''A'') (fget ex_frac_used ''A''))"
  by code_simp

text \<open>Whole numbers are floats, so sums of whole quantities do not round.\<close>

lemma bit_length_bounds:
  "0 < n \<Longrightarrow> 0 < bit_length n \<and> 2 ^ nat (bit_length n - 1) \<le> n \<and> n < 2 ^ nat (bit_length n)"
proof (induction n rule: bit_length.induct)
  case (1 n)
  show ?case
  proof (cases "n div 2 = 0")
    case True
    with "1.prems" have n1: "n = 1" by presburger
    have "bit_length 1 = 1" by (simp add: bit_length.simps[of 1] bit_length.simps[of 0])
    with n1 show ?thesis by simp
  next
    case False
    with "1.prems" have pos: "0 < n div 2" by presburger
    from "1.IH"[OF _ pos] "1.prems" have ih: "0 < bit_length (n div 2)"
      "2 ^ nat (bit_length (n div 2) - 1) \<le> n div 2" "n div 2 < 2 ^ nat (bit_length (n div 2))"
      by simp_all
    have bl: "bit_length n = 1 + bit_length (n div 2)"
      using "1.prems" by (simp add: bit_length.simps[of n])
    let ?k = "bit_length (n div 2)"
    have e1: "nat (bit_length n - 1) = Suc (nat (?k - 1))" using bl ih(1) by simp
    have e2: "nat (bit_length n) = Suc (nat ?k)" using bl ih(1) by simp
    have "2 * 2 ^ nat (?k - 1) \<le> n" using ih(2) by presburger
    moreover have "n < 2 * 2 ^ nat ?k" using ih(3) by presburger
    ultimately show ?thesis using bl ih(1) e1 e2 by simp
  qed
qed

lemma pow2_add: "pow2 (a + b) = pow2 a * pow2 b"
proof -
  have "pow2 k = 2 powi k" for k
    by (simp add: pow2_def power_int_def field_simps)
  then show ?thesis by (simp add: power_int_add)
qed

lemma pow2_pos: "0 < pow2 k"
  by (simp add: pow2_def)

lemma pow2_mono: "a \<le> b \<Longrightarrow> pow2 a \<le> pow2 b"
proof -
  assume "a \<le> b"
  have "pow2 k = 2 powi k" for k
    by (simp add: pow2_def power_int_def field_simps)
  then show ?thesis using \<open>a \<le> b\<close> by (simp add: power_int_increasing)
qed

lemma floor_log2_le:
  assumes "0 < x"
  shows "pow2 (floor_log2 x) \<le> x"
proof -
  obtain p q where pq: "quotient_of x = (p, q)" by (cases "quotient_of x")
  then have q: "0 < q" and x: "x = of_int p / of_int q"
    using quotient_of_denom_pos quotient_of_div by blast+
  with assms have p: "0 < p" by (simp add: zero_less_divide_iff)
  let ?d = "bit_length p - bit_length q"
  show ?thesis
  proof (cases "pow2 ?d \<le> x")
    case True
    then show ?thesis by (simp add: floor_log2_def pq)
  next
    case False
    from bit_length_bounds[OF p] have bp: "0 < bit_length p" "2 ^ nat (bit_length p - 1) \<le> p" by simp_all
    from bit_length_bounds[OF q] have bq: "0 < bit_length q" "q < 2 ^ nat (bit_length q)" by simp_all
    have p1: "pow2 (bit_length p - 1) \<le> of_int p"
    proof -
      have "pow2 (bit_length p - 1) = of_int (2 ^ nat (bit_length p - 1))"
        using bp(1) by (simp add: pow2_def)
      also have "\<dots> \<le> of_int p" using bp(2) by (simp only: of_int_le_iff)
      finally show ?thesis .
    qed
    have q1: "of_int q \<le> pow2 (bit_length q)"
    proof -
      have "pow2 (bit_length q) = of_int (2 ^ nat (bit_length q))"
        using bq(1) by (simp add: pow2_def)
      moreover have "(of_int q :: rat) \<le> of_int (2 ^ nat (bit_length q))"
        using bq(2) by (simp only: of_int_le_iff)
      ultimately show ?thesis by simp
    qed
    have split: "pow2 (bit_length p - 1) = pow2 (?d - 1) * pow2 (bit_length q)"
      by (simp add: pow2_add[symmetric])
    have "pow2 (?d - 1) * of_int q \<le> pow2 (?d - 1) * pow2 (bit_length q)"
      using q1 pow2_pos[of "?d - 1"] by (simp add: mult_left_mono)
    also have "\<dots> \<le> of_int p" using p1 split by simp
    finally have "pow2 (?d - 1) \<le> of_int p / of_int q"
      using q by (simp add: pos_le_divide_eq)
    then have low: "pow2 (?d - 1) \<le> x" unfolding x .
    have "floor_log2 x = ?d - 1" using False by (simp add: floor_log2_def pq)
    with low show ?thesis by simp
  qed
qed

lemma round_half_even_int: "round_half_even (of_int k) = k"
  by (simp add: round_half_even_def)

text \<open>Whole numbers of magnitude up to \<open>2\<^sup>5\<^sup>3\<close> are floats: rounding leaves them as they are.\<close>

lemma round_f64_whole:
  assumes "\<bar>n\<bar> \<le> 2 ^ 53"
  shows "round_f64 (of_int n) = of_int n"
proof (cases "n = 0")
  case True
  then show ?thesis by (simp add: round_f64_def)
next
  case False
  let ?x = "of_int n :: rat"
  let ?e = "floor_log2 \<bar>?x\<bar>"
  let ?k = "max (?e - 52) (- 1074)"
  have pos: "0 < \<bar>?x\<bar>" using False by simp
  have le: "pow2 ?e \<le> \<bar>?x\<bar>" by (rule floor_log2_le[OF pos])
  have ub: "\<bar>?x\<bar> \<le> pow2 53"
  proof -
    have "\<bar>?x\<bar> = of_int \<bar>n\<bar>" by simp
    also have "\<dots> \<le> of_int (2 ^ 53)" using assms by (simp only: of_int_le_iff)
    finally show ?thesis by (simp add: pow2_def)
  qed
  have e53: "?e \<le> 53"
  proof (rule ccontr)
    assume "\<not> ?e \<le> 53"
    then have "54 \<le> ?e" by simp
    then have "pow2 54 \<le> pow2 ?e" by (rule pow2_mono)
    with le ub have "pow2 54 \<le> pow2 53" by simp
    then show False by (simp add: pow2_def)
  qed
  have "\<exists>m. ?x / pow2 ?k = of_int m"
  proof (cases "?k \<le> 0")
    case True
    then have "pow2 ?k = 1 / 2 ^ nat (- ?k)"
      by (cases "?k = 0") (simp_all add: pow2_def)
    then have "?x / pow2 ?k = of_int (n * 2 ^ nat (- ?k))" by simp
    then show ?thesis by blast
  next
    case False
    with e53 have k1: "?k = 1" and e: "?e = 53" by simp_all
    from le e ub have "\<bar>?x\<bar> = pow2 53" by simp
    then have "\<bar>n\<bar> = 2 ^ 53"
      by (simp add: pow2_def)
    then have "n = 2 ^ 53 \<or> n = - (2 ^ 53)" by auto
    then have "?x / pow2 1 = of_int (n div 2)"
      by (auto simp: pow2_def)
    with k1 show ?thesis by auto
  qed
  then obtain m where m: "?x / pow2 ?k = of_int m" by blast
  have "round_f64 ?x = of_int (round_half_even (?x / pow2 ?k)) * pow2 ?k"
    using False by (simp add: round_f64_def Let_def)
  also have "\<dots> = of_int m * pow2 ?k" unfolding m by (simp add: round_half_even_int)
  also have "\<dots> = ?x" using m pow2_pos[of ?k] by (simp add: field_simps)
  finally show ?thesis .
qed

text \<open>
  So an addition to a float that holds a whole number is exact as long as the operands
  and the sum stay within \<open>2\<^sup>5\<^sup>3\<close>.
\<close>

lemma add_exact_whole:
  assumes "\<bar>a\<bar> \<le> 2 ^ 53" and "\<bar>b\<bar> \<le> 2 ^ 53" and "\<bar>a + b\<bar> \<le> 2 ^ 53"
  shows "add_exact (PFloat (of_int a)) (PInt b)"
    and "add_exact (PFloat (of_int a)) (PFloat (of_int b))"
    and "add_exact (PInt a) (PFloat (of_int b))"
    and "add_exact (PInt a) (PInt b)"
proof -
  have s: "round_f64 (of_int a + of_int b) = of_int a + of_int b"
    using round_f64_whole[OF assms(3)] by simp
  show "add_exact (PFloat (of_int a)) (PInt b)"
    using s round_f64_whole[OF assms(2)] by (simp add: add_exact_def py_add_def to_f64_def val_def)
  show "add_exact (PFloat (of_int a)) (PFloat (of_int b))"
    using s by (simp add: add_exact_def py_add_def to_f64_def val_def)
  show "add_exact (PInt a) (PFloat (of_int b))"
    using s round_f64_whole[OF assms(1)] by (simp add: add_exact_def py_add_def to_f64_def val_def)
  show "add_exact (PInt a) (PInt b)"
    by (simp add: add_exact_def py_add_def val_def)
qed

section \<open>Signed shortfall\<close>





section \<open>Repeated parts on one bill of materials\<close>

lemma bom_demand_absent: "p \<notin> comp_part ` set bom \<Longrightarrow> bom_demand bom p = 0"
  by (induction bom) (auto simp: bom_demand_def)

lemma bom_demand_distinct:
  assumes "distinct (map comp_part bom)" and "list_all (line_passes e used) bom"
  shows "bom_demand bom p = 0 \<or> bom_demand bom p \<le> true_available e used p"
  using assms
proof (induction bom)
  case Nil
  then show ?case by (simp add: bom_demand_def)
next
  case (Cons l ls)
  show ?case
  proof (cases "comp_part l = p")
    case True
    with Cons.prems(1) have "p \<notin> comp_part ` set ls" by auto
    then have z: "bom_demand ls p = 0" by (rule bom_demand_absent)
    have "bom_demand (l # ls) p = line_qty l + bom_demand ls p"
      using True by (simp add: bom_demand_def)
    moreover have "line_qty l \<le> true_available e used p"
      using Cons.prems(2) True by (auto simp: line_passes_def line_qty_def split: sum.splits)
    ultimately show ?thesis using z by simp
  next
    case False
    then have "bom_demand (l # ls) p = bom_demand ls p" by (simp add: bom_demand_def)
    with Cons show ?thesis by simp
  qed
qed

text \<open>
  When no part occurs on two lines of the bill, a release keeps every free quantity that
  was non-negative non-negative.
\<close>

lemma release_keeps_nonnegative_distinct:
  assumes "\<not> is_skipped row"
    and "bom_of e (order_so n row) \<noteq> []"
    and "distinct (map comp_part (bom_of e (order_so n row)))"
    and "r_status (fst (process_order e n row used)) = Release"
    and "0 \<le> true_available e used p"
  shows "0 \<le> true_available e (snd (process_order e n row used)) p"
proof -
  have pass: "list_all (line_passes e used) (bom_of e (order_so n row))"
    using assms(4) process_order_bom(1)[OF assms(1,2), of used] by (simp split: if_splits)
  have "true_available e (snd (process_order e n row used)) p =
      true_available e used p - bom_demand (bom_of e (order_so n row)) p"
    using pass process_order_bom(2)[OF assms(1,2), of used] by (simp add: true_available_allocate)
  with bom_demand_distinct[OF assms(3) pass, of p] assms(5) show ?thesis by auto
qed

lemma release_keeps_nonnegative_raw:
  assumes "\<not> is_skipped row"
    and "bom_of e (order_so n row) = []"
    and "r_status (fst (process_order e n row used)) = Release"
    and "0 \<le> true_available e used p"
  shows "0 \<le> true_available e (snd (process_order e n row used)) p"
proof -
  have le: "demand_qty_of row \<le> true_available e used (part_no row)"
    using assms(3) process_order_raw(1)[OF assms(1,2), of used] by (simp split: if_splits)
  then show ?thesis
    using assms(4) process_order_raw(2)[OF assms(1,2), of used]
    by (auto simp: true_available_def dget_upd)
qed

text \<open>
  Claim C3. The claim says that a release never drives a non-negative free quantity
  negative, also when a part is on more than one line of the order's bill. The code checks
  each line against the free quantity before the order and commits every line: with 5 of
  \<open>X\<close> free and two lines asking for 3 each, both lines pass, the order is released,
  and \<open>X\<close> is left at \<open>-1\<close>.
\<close>

theorem C3_duplicate_line_overdraft:
  "\<not> is_skipped ex_kit_order
   \<and> map comp_part (bom_of ex_dup_env (order_so 1 ex_kit_order)) = [''X'', ''X'']
   \<and> true_available ex_dup_env Map.empty ''X'' = 5
   \<and> r_status (fst (process_order ex_dup_env 1 ex_kit_order Map.empty)) = Release
   \<and> true_available ex_dup_env (snd (process_order ex_dup_env 1 ex_kit_order Map.empty)) ''X'' = - 1"
  by code_simp

section \<open>First fit among the purchase orders\<close>

lemma po_match_Some:
  "po_match e p s = Some po \<longleftrightarrow>
     (\<exists>i < length (future_pos e p). future_pos e p ! i = po \<and> s \<le> qty_due po \<and>
        (\<forall>j < i. \<not> s \<le> qty_due (future_pos e p ! j)))"
  unfolding po_match_def find_Some_iff by blast

lemma po_match_None:
  "po_match e p s = None \<longleftrightarrow> (\<forall>po \<in> set (future_pos e p). \<not> s \<le> qty_due po)"
  unfolding po_match_def find_None_iff by blast

lemma future_pos_set:
  "po \<in> set (future_pos e p) \<longleftrightarrow>
     po \<in> set (df_pos e) \<and> po_part po = p \<and> (\<exists>d. promised po = Some d \<and> now e \<le> d)"
  by (auto simp: future_pos_def split: option.splits)

text \<open>
  When the purchase orders come sorted by promised date, as the loader's query returns
  them, the record named by a shortage entry is the earliest one that covers the shortfall.
\<close>

lemma po_match_earliest:
  assumes srt: "sorted_wrt (\<lambda>a b. \<forall>x y. promised a = Some x \<longrightarrow> promised b = Some y \<longrightarrow> x \<le> y)
                  (df_pos e)"
    and m: "po_match e p s = Some po"
    and other: "po' \<in> set (future_pos e p)" "s \<le> qty_due po'"
    and d: "promised po = Some d" "promised po' = Some d'"
  shows "d \<le> d'"
proof -
  let ?f = "future_pos e p"
  have sf: "sorted_wrt (\<lambda>a b. \<forall>x y. promised a = Some x \<longrightarrow> promised b = Some y \<longrightarrow> x \<le> y) ?f"
    unfolding future_pos_def using srt by (rule sorted_wrt_filter)
  from m obtain i where i: "i < length ?f" "?f ! i = po"
    "\<forall>j < i. \<not> s \<le> qty_due (?f ! j)"
    unfolding po_match_Some by blast
  from other(1) obtain k where k: "k < length ?f" "?f ! k = po'"
    by (auto simp: in_set_conv_nth)
  have "\<not> k < i" using i(3) k(2) other(2) by auto
  then have "i = k \<or> i < k" by auto
  then show ?thesis
  proof
    assume "i = k"
    with i(2) k(2) d show ?thesis by simp
  next
    assume "i < k"
    with sf k(1) have "\<forall>x y. promised (?f ! i) = Some x \<longrightarrow> promised (?f ! k) = Some y \<longrightarrow> x \<le> y"
      by (simp add: sorted_wrt_iff_nth_less)
    with i(2) k(2) d show ?thesis by simp
  qed
qed

text \<open>
  Claim C4. At time 7 the purchase orders for \<open>A\<close> are 9 due at 5, 3 due at 10 and 5 due
  at 20; a shortfall of 5 is matched by the one due at 20, which is what the shortage entry
  of an order with a bill of materials names. An order without a bill of materials that is
  short by the same 5 of the same part gets an entry without any purchase order: that
  branch never looks at \<^verbatim>\<open>df_pos\<close>.
\<close>

theorem C4_no_bom_order_ignores_supply:
  "future_pos ex_po_env ''A'' = [ex_po_small, ex_po_fit]
   \<and> po_match ex_po_env ''A'' 5 = Some ex_po_fit
   \<and> r_status (fst (process_order ex_po_env 1 ex_po_bom_order Map.empty)) = Hold
   \<and> r_shortages (fst (process_order ex_po_env 1 ex_po_bom_order Map.empty)) =
        [ShortPO ''A'' 5 ex_po_fit]
   \<and> bom_of ex_po_env (order_so 1 ex_po_raw_order) = []
   \<and> r_status (fst (process_order ex_po_env 1 ex_po_raw_order Map.empty)) = Hold
   \<and> r_shortages (fst (process_order ex_po_env 1 ex_po_raw_order Map.empty)) =
        [ShortNoPO ''A'' 9 4 5]"
  by code_simp

section \<open>Errors while processing an order\<close>

lemma check_component_bad:
  assumes "required_of (comp_qty line) = Inl err"
  shows "\<not> all_components_available (check_component e used acc line)"
    and "shortage_details (check_component e used acc line) = shortage_details acc @ [ProcError err]"
  using assms by (simp_all add: check_component_def)

lemma shortage_details_grow:
  "set (shortage_details acc) \<subseteq> set (shortage_details (check_component e used acc line))"
  by (auto simp: check_component_def Let_def split: sum.splits)

lemma foldl_shortage_details_grow:
  "set (shortage_details acc) \<subseteq> set (shortage_details (foldl (check_component e used) acc bom))"
proof (induction bom arbitrary: acc)
  case Nil
  then show ?case by simp
next
  case (Cons l ls)
  have "set (shortage_details acc) \<subseteq> set (shortage_details (check_component e used acc l))"
    by (rule shortage_details_grow)
  also have "\<dots> \<subseteq> set (shortage_details (foldl (check_component e used) (check_component e used acc l) ls))"
    by (rule Cons.IH)
  finally show ?case by simp
qed

lemma foldl_check_bad:
  assumes "line \<in> set bom" and "required_of (comp_qty line) = Inl err"
  shows "ProcError err \<in> set (shortage_details (foldl (check_component e used) acc bom))"
  using assms(1)
proof (induction bom arbitrary: acc)
  case Nil
  then show ?case by simp
next
  case (Cons l ls)
  show ?case
  proof (cases "line = l")
    case True
    have "ProcError err \<in> set (shortage_details (check_component e used acc l))"
      using True check_component_bad(2)[OF assms(2), of e used acc] by simp
    then show ?thesis using foldl_shortage_details_grow[of "check_component e used acc l" e used ls]
      by auto
  next
    case False
    with Cons.prems have "line \<in> set ls" by simp
    from Cons.IH[OF this] show ?thesis by simp
  qed
qed

text \<open>
  An exception raised on a line of the bill of materials is caught: the order is held,
  the failure is among its shortage entries, and \<^verbatim>\<open>used_components\<close> is untouched.
\<close>

lemma order_error_contained:
  assumes "\<not> is_skipped row"
    and "line \<in> set (bom_of e (order_so n row))"
    and "required_of (comp_qty line) = Inl err"
  shows "r_status (fst (process_order e n row used)) = Hold"
    and "ProcError err \<in> set (r_shortages (fst (process_order e n row used)))"
    and "snd (process_order e n row used) = used"
proof -
  from assms(2) have ne: "bom_of e (order_so n row) \<noteq> []" by auto
  have np: "\<not> list_all (line_passes e used) (bom_of e (order_so n row))"
    using assms(2,3) by (auto simp: list_all_iff line_passes_def intro!: bexI[of _ line])
  show "r_status (fst (process_order e n row used)) = Hold"
    using process_order_bom(1)[OF assms(1) ne, of used] np by simp
  show "snd (process_order e n row used) = used"
    using process_order_bom(2)[OF assms(1) ne, of used] np by simp
  have "r_shortages (fst (process_order e n row used)) =
      shortage_details (foldl (check_component e used) init_acc (bom_of e (order_so n row)))"
    using assms(1) ne by (simp add: process_order_def is_skipped_def Let_def mk_result_def)
  then show "ProcError err \<in> set (r_shortages (fst (process_order e n row used)))"
    using foldl_check_bad[OF assms(2,3)] by simp
qed

text \<open>The loop produces one result per order, whatever happens in each.\<close>

lemma length_process_orders: "length (fst (process_orders e n rows used)) = length rows"
  by (induction rows arbitrary: n used) (auto simp: split_beta Let_def)

lemma schema_check:
  "filter (\<lambda>col. col \<notin> set (main_columns t)) required_columns \<noteq> [] \<Longrightarrow>
   process_single_scenario t nm strat ik ii iv iks =
     Inl (MissingColumns (filter (\<lambda>col. col \<notin> set (main_columns t)) required_columns))"
  by (simp add: process_single_scenario_def Let_def)

text \<open>
  With every required column there, the run fails exactly when no order is left to
  process, and then with the \<^verbatim>\<open>KeyError\<close> of the summary.
\<close>

lemma scenario_outcome:
  assumes "filter (\<lambda>col. col \<notin> set (main_columns t)) required_columns = []"
  shows "process_single_scenario t nm strat ik ii iv iks =
     (if scenario_orders t strat ik ii iv iks = [] then Inl (KeyError ''Status'')
      else Inr \<lparr>sc_name = nm,
                sc_sorting_strategy =
                  (case strat of Some s \<Rightarrow> s_name s | None \<Rightarrow> ''Default (Start Date)''),
                results_df = fst (process_orders (scenario_env t) 0
                                    (scenario_orders t strat ik ii iv iks) (committed_components t)),
                sc_metrics = projr (compute_metrics
                    (int (length (remdups (map fst (df_component_demand t)))))
                    (sum_list (map snd (df_component_demand t)))
                    (fst (process_orders (scenario_env t) 0
                            (scenario_orders t strat ik ii iv iks) (committed_components t))))\<rparr>)"
proof -
  let ?rows = "scenario_orders t strat ik ii iv iks"
  let ?res = "fst (process_orders (scenario_env t) 0 ?rows (committed_components t))"
  have len: "length ?res = length ?rows" by (rule length_process_orders)
  then have emp: "(?res = []) = (?rows = [])" by (metis length_0_conv)
  show ?thesis
    using assms emp
    by (simp add: process_single_scenario_def Let_def split_beta compute_metrics_def)
qed

text \<open>
  On a bill whose second line has an unreadable quantity the order is held with the error
  among its entries, nothing is used, and the next order is released as usual.
\<close>

lemma error_contained_example:
  "map r_status (fst (process_orders ex_bad_env 0 [ex_kit_order, ex_raw_x_order] Map.empty))
     = [Hold, Release]
   \<and> r_shortages (hd (fst (process_orders ex_bad_env 0 [ex_kit_order, ex_raw_x_order] Map.empty)))
     = [ProcError ValueError]
   \<and> true_available ex_bad_env
        (snd (process_orders ex_bad_env 0 [ex_kit_order, ex_raw_x_order] Map.empty)) ''Y'' = 5
   \<and> true_available ex_bad_env
        (snd (process_orders ex_bad_env 0 [ex_kit_order, ex_raw_x_order] Map.empty)) ''X'' = 3"
  by code_simp

lemma schema_check_example:
  "process_single_scenario ex_missing_columns ''Database_Scenario'' None True True True True
     = Inl (MissingColumns [''Start Date'', ''Rev Qty Due''])"
  by code_simp

text \<open>
  Claim C7. The claim says that the schema check is the only failure that ends a run.
  The demand table of the example has every required column; with no category selected
  no order is left, the loop appends nothing, and the summary raises \<^verbatim>\<open>KeyError\<close> on
  the empty result frame.
\<close>

theorem C7_empty_run_is_fatal:
  "filter (\<lambda>col. col \<notin> set (main_columns ex_two_orders)) required_columns = []
   \<and> scenario_orders ex_two_orders None False False False False = []
   \<and> process_single_scenario ex_two_orders ''Database_Scenario'' None False False False False
       = Inl (KeyError ''Status'')"
  by code_simp

section \<open>Counting held orders\<close>

lemma count_status_split:
  "int (length rs) =
     count_rows (\<lambda>r. r_status r = Release) rs + count_rows (\<lambda>r. r_status r = Hold) rs
       + count_rows (\<lambda>r. r_status r = Skipped) rs"
proof (induction rs)
  case Nil
  then show ?case by (simp add: count_rows_def)
next
  case (Cons r rs)
  then show ?case by (cases "r_status r") (simp_all add: count_rows_def)
qed

text \<open>What the summary calls held orders are the held and the skipped ones together.\<close>

lemma held_count_includes_skipped:
  assumes "compute_metrics a b rs = Inr m"
  shows "held_count m = count_rows (\<lambda>r. r_status r = Hold) rs + skipped_count m"
    and "held_hours m = sum_hours (\<lambda>r. r_status r = Hold) rs"
    and "held_qty m = sum_demand (\<lambda>r. r_status r = Hold) rs"
  using assms count_status_split[of rs]
  by (auto simp: compute_metrics_def Let_def split: if_splits)

text \<open>
  Claim C9. The claim says that the held count is the number of results whose status is
  Hold. For a run whose only order is skipped the summary reports one held order and one
  skipped order, although no result has status Hold: \<^verbatim>\<open>held_count\<close> is
  \<^verbatim>\<open>total_orders - releasable_count\<close>.
\<close>

theorem C9_held_count_counts_skipped:
  "map_sum id (\<lambda>sc. (map r_status (results_df sc),
                      total_orders (sc_metrics sc), releasable_count (sc_metrics sc),
                      held_count (sc_metrics sc), skipped_count (sc_metrics sc)))
     (process_single_scenario ex_zero_demand ''Database_Scenario'' None True True True True)
   = Inr ([Skipped], 1, 0, 1, 1)"
  by code_simp

section \<open>The two engines\<close>

lemma check_component_qt6_eq: "check_component_qt6 = check_component"
  by (intro ext) (simp add: check_component_qt6_def check_component_def)

lemma allocate_qt6_eq: "allocate_qt6 reqs used = allocate reqs used"
proof (induction reqs arbitrary: used)
  case Nil
  then show ?case by simp
next
  case (Cons x reqs)
  obtain p q b where x: "x = (p, q, b)" by (cases x)
  show ?case unfolding x allocate_qt6.simps allocate.simps by (rule Cons.IH)
qed

lemma allocate_qt6_fun_eq: "allocate_qt6 = allocate"
  by (rule ext, rule ext) (rule allocate_qt6_eq)

lemma process_order_qt6_eq: "process_order_qt6 e n row used = process_order e n row used"
  unfolding process_order_qt6_def process_order_def check_component_qt6_eq allocate_qt6_fun_eq
  by (rule refl)

lemma process_orders_qt6_eq: "process_orders_qt6 e n rows used = process_orders e n rows used"
  by (induction rows arbitrary: n used) (simp_all add: process_order_qt6_eq)

lemma compute_metrics_qt6_eq: "compute_metrics_qt6 a b rs = compute_metrics a b rs"
  by (simp add: compute_metrics_qt6_def compute_metrics_def)

text \<open>
  Claim C10. On the same tables, sorting strategy and category flags, the engine of
  \<^verbatim>\<open>AMCBDG_SQL_Qt6.py\<close> and the engine of \<^verbatim>\<open>AMCBDG_SQL.py\<close> give the same outcome:
  the same results order by order and the same \<^verbatim>\<open>used_components\<close> from the loop, the
  same summary, and the same scenario (or the same error) from the whole function.
\<close>

theorem C10_engines_agree:
  "process_orders_qt6 e n rows used = process_orders e n rows used
   \<and> compute_metrics_qt6 a b rs = compute_metrics a b rs
   \<and> process_single_scenario_qt6 self t nm strat =
       process_single_scenario t nm strat (include_kits self) (include_instruments self)
         (include_virtuoso self) (include_kit_samples self)"
proof -
  have po: "process_orders_qt6 = process_orders"
    by (rule ext, rule ext, rule ext, rule ext) (rule process_orders_qt6_eq)
  have cm: "compute_metrics_qt6 = compute_metrics"
    by (rule ext, rule ext, rule ext) (rule compute_metrics_qt6_eq)
  have "process_single_scenario_qt6 self t nm strat =
       process_single_scenario t nm strat (include_kits self) (include_instruments self)
         (include_virtuoso self) (include_kit_samples self)"
    unfolding process_single_scenario_qt6_def process_single_scenario_def scenario_orders_def po cm
    by (rule refl)
  then show ?thesis by (simp add: process_orders_qt6_eq compute_metrics_qt6_eq)
qed

text \<open>On the two orders of the example both engines release the first and hold the second.\<close>

theorem C10_engines_agree_witness:
  "process_single_scenario_qt6 ex_worker ex_two_orders ''Database_Scenario'' None =
     process_single_scenario ex_two_orders ''Database_Scenario'' None True True True True
   \<and> map_sum id (\<lambda>sc. (map r_status (results_df sc), releasable_count (sc_metrics sc)))
        (process_single_scenario_qt6 ex_worker ex_two_orders ''Database_Scenario'' None)
      = Inr ([Release, Hold], 1)"
proof -
  have w: "include_kits ex_worker = True" "include_instruments ex_worker = True"
    "include_virtuoso ex_worker = True" "include_kit_samples ex_worker = True"
    by (simp_all add: ex_worker_def)
  have v: "map_sum id (\<lambda>sc. (map r_status (results_df sc), releasable_count (sc_metrics sc)))
        (process_single_scenario ex_two_orders ''Database_Scenario'' None True True True True)
      = Inr ([Release, Hold], 1)"
    by code_simp
  from C10_engines_agree[of _ _ _ _ _ _ _ ex_worker ex_two_orders "''Database_Scenario''" None]
  show ?thesis using w v by simp
qed

section \<open>Choosing the best runs\<close>

lemma max_from_key_ge: "key best \<le> key (max_from key best xs)"
proof (induction xs arbitrary: best)
  case Nil
  then show ?case by simp
next
  case (Cons x xs)
  have "key best \<le> key (if key best < key x then x else best)" by (simp add: less_imp_le)
  also have "\<dots> \<le> key (max_from key (if key best < key x then x else best) xs)"
    by (rule Cons.IH)
  finally show ?case by simp
qed

lemma max_from_upper: "y \<in> set xs \<Longrightarrow> key y \<le> key (max_from key best xs)"
proof (induction xs arbitrary: best)
  case Nil
  then show ?case by simp
next
  case (Cons x xs)
  show ?case
  proof (cases "y = x")
    case True
    have "key x \<le> key (if key best < key x then x else best)" by (simp add: not_less)
    also have "\<dots> \<le> key (max_from key (if key best < key x then x else best) xs)"
      by (rule max_from_key_ge)
    finally show ?thesis using True by simp
  next
    case False
    with Cons.prems have "y \<in> set xs" by simp
    from Cons.IH[OF this] show ?thesis by simp
  qed
qed

text \<open>The winner sits at some position, and everything before it has a smaller key.\<close>

lemma max_from_first:
  "\<exists>i < Suc (length xs). (best # xs) ! i = max_from key best xs \<and>
      (\<forall>j < i. key ((best # xs) ! j) < key (max_from key best xs))"
proof (induction xs arbitrary: best)
  case Nil
  then show ?case by simp
next
  case (Cons x xs)
  let ?b = "if key best < key x then x else best"
  let ?m = "max_from key ?b xs"
  from Cons.IH[of ?b] obtain i where i: "i < Suc (length xs)" "(?b # xs) ! i = ?m"
      "\<forall>j < i. key ((?b # xs) ! j) < key ?m" by blast
  show ?case
  proof (cases "key best < key x")
    case True
    then have b: "?b = x" by simp
    have lt: "key best < key ?m"
      using True max_from_key_ge[of key x xs] b by (simp add: less_le_trans)
    have "(best # x # xs) ! Suc i = ?m" using i(2) b by simp
    moreover have "\<forall>j < Suc i. key ((best # x # xs) ! j) < key ?m"
    proof (intro allI impI)
      fix j assume "j < Suc i"
      show "key ((best # x # xs) ! j) < key ?m"
      proof (cases j)
        case 0
        then show ?thesis using lt by simp
      next
        case (Suc k)
        with \<open>j < Suc i\<close> have "k < i" by simp
        with i(3) b Suc show ?thesis by simp
      qed
    qed
    moreover have "Suc i < Suc (length (x # xs))" using i(1) by simp
    ultimately show ?thesis
      by (metis max_from.simps(2))
  next
    case False
    then have b: "?b = best" by simp
    show ?thesis
    proof (cases i)
      case 0
      then have "(best # x # xs) ! 0 = ?m" using i(2) b by simp
      then show ?thesis
        by (metis max_from.simps(2) not_less_zero zero_less_Suc)
    next
      case (Suc k)
      have m: "(best # x # xs) ! Suc i = ?m" using i(2) Suc by simp
      have "\<forall>j < Suc i. key ((best # x # xs) ! j) < key ?m"
      proof (intro allI impI)
        fix j assume j: "j < Suc i"
        show "key ((best # x # xs) ! j) < key ?m"
        proof (cases j)
          case 0
          have "0 < i" using Suc by simp
          with i(3) b have "key best < key ?m" by force
          then show ?thesis using 0 by simp
        next
          case (Suc l)
          show ?thesis
          proof (cases l)
            case 0
            have "0 < i" using \<open>i = Suc k\<close> by simp
            with i(3) b have "key best < key ?m" by force
            moreover have "key x \<le> key best" using False by simp
            ultimately show ?thesis using Suc 0 by simp
          next
            case (Suc l')
            have "l < i" using j \<open>j = Suc l\<close> by simp
            with i(3) have "key ((?b # xs) ! l) < key ?m" by blast
            then show ?thesis using \<open>j = Suc l\<close> Suc by simp
          qed
        qed
      qed
      moreover have "Suc i < Suc (length (x # xs))" using i(1) by simp
      ultimately show ?thesis using m
        by (metis max_from.simps(2))
    qed
  qed
qed

lemma py_max_spec:
  assumes "py_max key xs = Inr m"
  shows "(\<forall>y \<in> set xs. key y \<le> key m) \<and>
         (\<exists>i < length xs. xs ! i = m \<and> (\<forall>j < i. key (xs ! j) < key m))"
proof (cases xs)
  case Nil
  with assms show ?thesis by (simp add: py_max_def)
next
  case (Cons x rest)
  with assms have m: "m = max_from key x rest" by (simp add: py_max_def)
  have "\<forall>y \<in> set xs. key y \<le> key m"
    unfolding Cons m using max_from_upper[of _ rest key x] max_from_key_ge[of key x rest] by auto
  moreover have "\<exists>i < length xs. xs ! i = m \<and> (\<forall>j < i. key (xs ! j) < key m)"
    unfolding Cons m using max_from_first[of rest x key] by simp
  ultimately show ?thesis by blast
qed


lemma run_strategies_runs:
  assumes "run_strategies t ik ii iv iks ss = Inr scs"
  shows "map (\<lambda>s. process_single_scenario t (scenario_name_of s) (Some s) ik ii iv iks) ss
           = map Inr scs"
  using assms
proof (induction ss arbitrary: scs)
  case Nil
  then show ?case by simp
next
  case (Cons s ss)
  from Cons.prems obtain sc rest where
    sc: "process_single_scenario t (scenario_name_of s) (Some s) ik ii iv iks = Inr sc"
    and rest: "run_strategies t ik ii iv iks ss = Inr rest"
    and scs: "scs = sc # rest"
    by (auto split: sum.splits)
  from Cons.IH[OF rest] sc scs show ?case by simp
qed

text \<open>
  Claim C5. When the search over the strategies returns, the runs it compares are the
  runs of the strategies of \<^verbatim>\<open>get_sorting_strategies\<close>, in that order, on the same
  tables; the run chosen as best for orders has a released count at least that of every
  run, and is the earliest run with that count; the same holds for the run chosen for
  released hours and for the run chosen for released quantity, each on its own.
\<close>

theorem C5_argmax:
  assumes "minmax_search t ik ii iv iks = Inr sr"
  shows "map (\<lambda>s. process_single_scenario t (scenario_name_of s) (Some s) ik ii iv iks)
             get_sorting_strategies = map Inr (scenarios_for_comparison sr)
   \<and> (\<forall>s \<in> set (scenarios_for_comparison sr).
          releasable_count (sc_metrics s) \<le> releasable_count (sc_metrics (best_orders_strategy sr)))
   \<and> (\<exists>i < length (scenarios_for_comparison sr).
          scenarios_for_comparison sr ! i = best_orders_strategy sr \<and>
          (\<forall>j < i. releasable_count (sc_metrics (scenarios_for_comparison sr ! j))
                     < releasable_count (sc_metrics (best_orders_strategy sr))))
   \<and> (\<forall>s \<in> set (scenarios_for_comparison sr).
          releasable_hours (sc_metrics s) \<le> releasable_hours (sc_metrics (best_hours_strategy sr)))
   \<and> (\<exists>i < length (scenarios_for_comparison sr).
          scenarios_for_comparison sr ! i = best_hours_strategy sr \<and>
          (\<forall>j < i. releasable_hours (sc_metrics (scenarios_for_comparison sr ! j))
                     < releasable_hours (sc_metrics (best_hours_strategy sr))))
   \<and> (\<forall>s \<in> set (scenarios_for_comparison sr).
          releasable_qty (sc_metrics s) \<le> releasable_qty (sc_metrics (best_qty_strategy sr)))
   \<and> (\<exists>i < length (scenarios_for_comparison sr).
          scenarios_for_comparison sr ! i = best_qty_strategy sr \<and>
          (\<forall>j < i. releasable_qty (sc_metrics (scenarios_for_comparison sr ! j))
                     < releasable_qty (sc_metrics (best_qty_strategy sr))))"
proof -
  from assms obtain all bo bh bq where
    run: "run_strategies t ik ii iv iks get_sorting_strategies = Inr all"
    and bo: "py_max (\<lambda>s. releasable_count (sc_metrics s)) all = Inr bo"
    and bh: "py_max (\<lambda>s. releasable_hours (sc_metrics s)) all = Inr bh"
    and bq: "py_max (\<lambda>s. releasable_qty (sc_metrics s)) all = Inr bq"
    and sr: "sr = \<lparr>best_orders_strategy = bo, best_hours_strategy = bh,
                    best_qty_strategy = bq, scenarios_for_comparison = all\<rparr>"
    by (auto simp: minmax_search_def split: sum.splits)
  show ?thesis
    using run_strategies_runs[OF run] py_max_spec[OF bo] py_max_spec[OF bh] py_max_spec[OF bq]
    unfolding sr by simp
qed

text \<open>
  On the two orders of the example every strategy releases one order, so the first
  strategy is best for orders; the strategies that take the larger order first release
  5 units and 5/2 hours, and the first of them is best for hours and for quantity.
\<close>

theorem C5_argmax_witness:
  "minmax_search ex_two_orders True True True True = Inr ex_search
   \<and> map (\<lambda>s. process_single_scenario ex_two_orders (scenario_name_of s) (Some s)
                 True True True True) get_sorting_strategies
       = map Inr (scenarios_for_comparison ex_search)
   \<and> map (\<lambda>s. (releasable_count (sc_metrics s), releasable_hours (sc_metrics s),
                 releasable_qty (sc_metrics s))) (scenarios_for_comparison ex_search)
       = [(1, 2, 4), (1, 5 / 2, 5), (1, 2, 4), (1, 5 / 2, 5), (1, 2, 4), (1, 5 / 2, 5),
          (1, 2, 4), (1, 2, 4), (1, 2, 4), (1, 5 / 2, 5)]
   \<and> sc_sorting_strategy (best_orders_strategy ex_search) = ''Start Date (Early First)''
   \<and> sc_sorting_strategy (best_hours_strategy ex_search) = ''Start Date (Late First)''
   \<and> sc_sorting_strategy (best_qty_strategy ex_search) = ''Start Date (Late First)''"
proof -
  have "\<not> isl (minmax_search ex_two_orders True True True True)" by code_simp
  then have h: "minmax_search ex_two_orders True True True True = Inr ex_search"
    unfolding ex_search_def by simp
  have v: "map (\<lambda>s. (releasable_count (sc_metrics s), releasable_hours (sc_metrics s),
                 releasable_qty (sc_metrics s))) (scenarios_for_comparison ex_search)
       = [(1, 2, 4), (1, 5 / 2, 5), (1, 2, 4), (1, 5 / 2, 5), (1, 2, 4), (1, 5 / 2, 5),
          (1, 2, 4), (1, 2, 4), (1, 2, 4), (1, 5 / 2, 5)]"
    by code_simp
  have n: "sc_sorting_strategy (best_orders_strategy ex_search) = ''Start Date (Early First)''"
    "sc_sorting_strategy (best_hours_strategy ex_search) = ''Start Date (Late First)''"
    "sc_sorting_strategy (best_qty_strategy ex_search) = ''Start Date (Late First)''"
    by code_simp+
  from C5_argmax[OF h] have
    "map (\<lambda>s. process_single_scenario ex_two_orders (scenario_name_of s) (Some s)
                 True True True True) get_sorting_strategies
       = map Inr (scenarios_for_comparison ex_search)" by blast
  with h v n show ?thesis by simp
qed

section \<open>Sorting\<close>

lemma set_insort_by: "set (insort_by le x xs) = insert x (set xs)"
  by (induction xs) auto

lemma length_insort_by: "length (insort_by le x xs) = Suc (length xs)"
  by (induction xs) auto

lemma length_sort_by: "length (sort_by le xs) = length xs"
  by (induction xs) (auto simp: sort_by_def length_insort_by)

lemma sorted_insort_by:
  assumes tot: "\<And>a b. le a b \<or> le b a" and tr: "\<And>a b c. le a b \<Longrightarrow> le b c \<Longrightarrow> le a c"
  shows "sorted_wrt le xs \<Longrightarrow> sorted_wrt le (insort_by le x xs)"
proof (induction xs)
  case Nil
  then show ?case by simp
next
  case (Cons y ys)
  show ?case
  proof (cases "le x y")
    case True
    with Cons.prems tr show ?thesis by auto
  next
    case False
    with tot have "le y x" by blast
    with Cons False show ?thesis by (auto simp: set_insort_by)
  qed
qed

lemma sorted_sort_by:
  assumes tot: "\<And>a b. le a b \<or> le b a" and tr: "\<And>a b c. le a b \<Longrightarrow> le b c \<Longrightarrow> le a c"
  shows "sorted_wrt le (sort_by le xs)"
proof (induction xs)
  case Nil
  then show ?case by (simp add: sort_by_def)
next
  case (Cons x xs)
  have "sort_by le (x # xs) = insort_by le x (sort_by le xs)" by (simp add: sort_by_def)
  with Cons sorted_insort_by[of le, OF tot tr] show ?case by simp
qed

lemma cmp_dir_flip: "cmp_dir asc b a = flip3 (cmp_dir asc a b)"
  by (auto simp: cmp_dir_def)

lemma cmp_dir_trans:
  "cmp_dir asc a b \<noteq> After \<Longrightarrow> cmp_dir asc b c \<noteq> After \<Longrightarrow>
     cmp_dir asc a c \<noteq> After \<and>
     (cmp_dir asc a c = Tie \<longrightarrow> cmp_dir asc a b = Tie \<and> cmp_dir asc b c = Tie)"
  by (cases asc) (auto simp: cmp_dir_def split: if_splits)

lemma cmp_na_last_flip: "cmp_na_last asc b a = flip3 (cmp_na_last asc a b)"
  by (cases a; cases b) (auto simp: cmp_na_last_def cmp_dir_def)

lemma cmp_na_last_trans:
  "cmp_na_last asc a b \<noteq> After \<Longrightarrow> cmp_na_last asc b c \<noteq> After \<Longrightarrow>
     cmp_na_last asc a c \<noteq> After \<and>
     (cmp_na_last asc a c = Tie \<longrightarrow> cmp_na_last asc a b = Tie \<and> cmp_na_last asc b c = Tie)"
proof (cases a; cases b; cases c)
  fix x y z assume "a = Some x" "b = Some y" "c = Some z"
    and "cmp_na_last asc a b \<noteq> After" "cmp_na_last asc b c \<noteq> After"
  then show ?thesis using cmp_dir_trans[of asc x y z] by (simp add: cmp_na_last_def)
qed (simp_all add: cmp_na_last_def)

lemma key_cmp_flip: "key_cmp ls c asc b a = flip3 (key_cmp ls c asc a b)"
proof (cases c)
  case StartDate
  then show ?thesis using cmp_na_last_flip[of asc "start_date b" "start_date a"] by simp
next
  case SONumber
  then show ?thesis using cmp_na_last_flip[of asc "so_number b" "so_number a"] by simp
next
  case Demand
  then show ?thesis using cmp_dir_flip[of asc "demand b" "demand a"] by simp
next
  case HoursCalc
  then show ?thesis using cmp_dir_flip[of asc "hours_calc ls b" "hours_calc ls a"] by simp
next
  case Part
  then show ?thesis using cmp_dir_flip[of asc "part_no b" "part_no a"] by simp
next
  case Planner
  then show ?thesis using cmp_dir_flip[of asc "planner b" "planner a"] by simp
qed

lemma key_cmp_trans:
  "key_cmp ls k asc a b \<noteq> After \<Longrightarrow> key_cmp ls k asc b c \<noteq> After \<Longrightarrow>
     key_cmp ls k asc a c \<noteq> After \<and>
     (key_cmp ls k asc a c = Tie \<longrightarrow> key_cmp ls k asc a b = Tie \<and> key_cmp ls k asc b c = Tie)"
proof (cases k)
  case StartDate
  then show "key_cmp ls k asc a b \<noteq> After \<Longrightarrow> key_cmp ls k asc b c \<noteq> After \<Longrightarrow> ?thesis"
    using cmp_na_last_trans[of asc "start_date a" "start_date b" "start_date c"] by simp
next
  case SONumber
  then show "key_cmp ls k asc a b \<noteq> After \<Longrightarrow> key_cmp ls k asc b c \<noteq> After \<Longrightarrow> ?thesis"
    using cmp_na_last_trans[of asc "so_number a" "so_number b" "so_number c"] by simp
next
  case Demand
  then show "key_cmp ls k asc a b \<noteq> After \<Longrightarrow> key_cmp ls k asc b c \<noteq> After \<Longrightarrow> ?thesis"
    using cmp_dir_trans[of asc "demand a" "demand b" "demand c"] by simp
next
  case HoursCalc
  then show "key_cmp ls k asc a b \<noteq> After \<Longrightarrow> key_cmp ls k asc b c \<noteq> After \<Longrightarrow> ?thesis"
    using cmp_dir_trans[of asc "hours_calc ls a" "hours_calc ls b" "hours_calc ls c"] by simp
next
  case Part
  then show "key_cmp ls k asc a b \<noteq> After \<Longrightarrow> key_cmp ls k asc b c \<noteq> After \<Longrightarrow> ?thesis"
    using cmp_dir_trans[of asc "part_no a" "part_no b" "part_no c"] by simp
next
  case Planner
  then show "key_cmp ls k asc a b \<noteq> After \<Longrightarrow> key_cmp ls k asc b c \<noteq> After \<Longrightarrow> ?thesis"
    using cmp_dir_trans[of asc "planner a" "planner b" "planner c"] by simp
qed

lemma lex_cmp_total: "lex_cmp ls ks a b = After \<Longrightarrow> lex_cmp ls ks b a \<noteq> After"
proof (induction ks)
  case Nil
  then show ?case by simp
next
  case (Cons k ks)
  obtain c asc where k: "k = (c, asc)" by (cases k)
  from Cons show ?case
    unfolding k by (cases "key_cmp ls c asc a b") (simp_all add: key_cmp_flip[of ls c asc b a])
qed

lemma lex_cmp_trans:
  "lex_cmp ls ks a b \<noteq> After \<Longrightarrow> lex_cmp ls ks b c \<noteq> After \<Longrightarrow> lex_cmp ls ks a c \<noteq> After"
proof (induction ks)
  case Nil
  then show ?case by simp
next
  case (Cons k ks)
  obtain col asc where k: "k = (col, asc)" by (cases k)
  have ab: "key_cmp ls col asc a b \<noteq> After"
    using Cons.prems(1) unfolding k by (auto split: ord3.splits)
  have bc: "key_cmp ls col asc b c \<noteq> After"
    using Cons.prems(2) unfolding k by (auto split: ord3.splits)
  from key_cmp_trans[OF ab bc] have ac: "key_cmp ls col asc a c \<noteq> After"
    and tie: "key_cmp ls col asc a c = Tie \<Longrightarrow> key_cmp ls col asc a b = Tie \<and> key_cmp ls col asc b c = Tie"
    by simp_all
  show ?case
  proof (cases "key_cmp ls col asc a c")
    case Before
    then show ?thesis unfolding k by simp
  next
    case Tie
    from tie[OF Tie] Cons.prems have "lex_cmp ls ks a b \<noteq> After" "lex_cmp ls ks b c \<noteq> After"
      unfolding k by simp_all
    from Cons.IH[OF this] Tie show ?thesis unfolding k by simp
  next
    case After
    with ac show ?thesis by simp
  qed
qed

lemma sorted_sort_values: "sorted_wrt (row_le ls cols asc) (sort_values ls cols asc rows)"
  unfolding sort_values_def
proof (rule sorted_sort_by)
  fix a b show "row_le ls cols asc a b \<or> row_le ls cols asc b a"
    unfolding row_le_def using lex_cmp_total by blast
next
  fix a b c assume "row_le ls cols asc a b" "row_le ls cols asc b c"
  then show "row_le ls cols asc a c" unfolding row_le_def by (rule lex_cmp_trans)
qed

lemma length_sort_values: "length (sort_values ls cols asc rows) = length rows"
  by (simp add: sort_values_def length_sort_by)

lemma apply_sorting_two_columns:
  "s_columns s = [c1, c2] \<Longrightarrow>
   apply_sorting ls (Some s) rows =
     sort_values ls (s_columns s) (s_ascending s) (sort_values ls (s_columns s) (s_ascending s) rows)"
  by (simp add: apply_sorting_def)

lemma strategy_shape:
  "list_all (\<lambda>s. s_columns s = [s_columns s ! 0, s_columns s ! 1] \<and>
                  s_ascending s = [s_ascending s ! 0, True] \<and>
                  s_columns s ! 1 = (if s_columns s ! 0 = StartDate then SONumber else StartDate))
     get_sorting_strategies"
  by (simp add: get_sorting_strategies_def)

lemma strategy_cases:
  assumes "s \<in> set get_sorting_strategies"
  shows "s_columns s = [s_columns s ! 0, s_columns s ! 1]"
    and "s_ascending s = [s_ascending s ! 0, True]"
    and "s_columns s ! 1 = (if s_columns s ! 0 = StartDate then SONumber else StartDate)"
  using assms strategy_shape unfolding list_all_iff by blast+

text \<open>
  Claim C6, as amended. For every named sorting strategy, of two orders that compare
  equal on the strategy's first sort column the one that comes first in the processing
  sequence is not after the other on the strategy's second column, ascending with missing
  values last. The second column is the order id for the two strategies that sort by start
  date, and the start date for the other eight.
\<close>

theorem C6_tie_break:
  assumes "s \<in> set get_sorting_strategies"
    and "out = apply_sorting ls (Some s) rows"
    and "i < j" and "j < length out"
    and "key_cmp ls (s_columns s ! 0) (s_ascending s ! 0) (out ! i) (out ! j) = Tie"
  shows "(if s_columns s ! 0 = StartDate
          then cmp_na_last True (so_number (out ! i)) (so_number (out ! j))
          else cmp_na_last True (start_date (out ! i)) (start_date (out ! j))) \<noteq> After"
proof -
  note sh = strategy_cases[OF assms(1)]
  have "sorted_wrt (row_le ls (s_columns s) (s_ascending s)) out"
    unfolding assms(2) apply_sorting_two_columns[OF sh(1)] by (rule sorted_sort_values)
  with assms(3,4) have "row_le ls (s_columns s) (s_ascending s) (out ! i) (out ! j)"
    by (simp add: sorted_wrt_iff_nth_less)
  then have "lex_cmp ls [(s_columns s ! 0, s_ascending s ! 0), (s_columns s ! 1, True)]
               (out ! i) (out ! j) \<noteq> After"
    unfolding row_le_def by (subst (asm) sh(1), subst (asm) sh(2)) simp
  with assms(5) have "key_cmp ls (s_columns s ! 1) True (out ! i) (out ! j) \<noteq> After"
    by (simp split: ord3.splits)
  then show ?thesis unfolding sh(3) by (simp split: if_splits)
qed

text \<open>
  Under ``Demand (Small First)'' two orders with the same demand come out by start date:
  order \<open>2\<close> (start 1) before order \<open>1\<close> (start 5).
\<close>

theorem C6_tie_break_witness:
  "get_sorting_strategies ! 2 \<in> set get_sorting_strategies
   \<and> apply_sorting Map.empty (Some (get_sorting_strategies ! 2)) [ex_tie_a, ex_tie_b]
       = [ex_tie_b, ex_tie_a]
   \<and> key_cmp Map.empty Demand True ex_tie_b ex_tie_a = Tie
   \<and> cmp_na_last True (start_date ex_tie_b) (start_date ex_tie_a) \<noteq> After"
proof -
  let ?s = "get_sorting_strategies ! 2"
  let ?out = "apply_sorting Map.empty (Some ?s) [ex_tie_a, ex_tie_b]"
  have m: "?s \<in> set get_sorting_strategies" by (simp add: get_sorting_strategies_def)
  have out: "?out = [ex_tie_b, ex_tie_a]" by code_simp
  have c0: "s_columns ?s ! 0 = Demand" "s_ascending ?s ! 0 = True"
    by (simp_all add: get_sorting_strategies_def)
  have tie: "key_cmp Map.empty Demand True ex_tie_b ex_tie_a = Tie" by code_simp
  have tie': "key_cmp Map.empty (s_columns ?s ! 0) (s_ascending ?s ! 0) (?out ! 0) (?out ! 1) = Tie"
    unfolding out c0 using tie by simp
  have len: "1 < length ?out" unfolding out by simp
  from C6_tie_break[OF m refl _ len tie'] have
    "cmp_na_last True (start_date (?out ! 0)) (start_date (?out ! 1)) \<noteq> After"
    unfolding c0 by simp
  then have "cmp_na_last True (start_date ex_tie_b) (start_date ex_tie_a) \<noteq> After"
    unfolding out by simp
  with m out tie show ?thesis by simp
qed

text \<open>
  Claim C6, as stated, fails: under ``Demand (Small First)'' the two orders tie on the
  demand, and the one with the larger order id is processed first.
\<close>

theorem C6_order_id_counterexample:
  "s_name (get_sorting_strategies ! 2) = ''Demand (Small First)''
   \<and> apply_sorting Map.empty (Some (get_sorting_strategies ! 2)) [ex_tie_a, ex_tie_b]
       = [ex_tie_b, ex_tie_a]
   \<and> key_cmp Map.empty Demand True ex_tie_b ex_tie_a = Tie
   \<and> so_number ex_tie_b = Some ''2'' \<and> so_number ex_tie_a = Some ''1''
   \<and> cmp_na_last True (so_number ex_tie_b) (so_number ex_tie_a) = After"
  by code_simp

end
